theory Spec2Isabelle
  imports Main
begin

section \<open>The C type double\<close>

text \<open>
  The pass computes on C doubles (IEEE 754 binary64).  A double is not-a-number, an
  infinity with its sign bit, or a finite number \<open>Fin s m e\<close> of value
  \<open>(-1)^s * m * 2^e\<close>: \<open>s\<close> is the sign bit, \<open>m\<close> the 53-bit significand as an integer
  and \<open>e\<close> the exponent of its last bit.  A normal number has \<open>2^52 \<le> m < 2^53\<close> and
  \<open>-1074 \<le> e \<le> 971\<close>; a subnormal number and the two zeros have \<open>m < 2^52\<close> and
  \<open>e = -1074\<close>, so that a double has one representation and two doubles are the same
  number exactly when they are equal (the zeros apart, which differ in sign only).  The
  payload of a not-a-number is not modelled.
\<close>

datatype double = NaN | Infty bool | Fin bool int int

text \<open>
  \<open>ilog2 a b\<close> is the exponent \<open>d\<close> with \<open>2^d \<le> a / b < 2^(d+1)\<close>, for positive integers
  whose quotient lies between \<open>2^-2200\<close> and \<open>2^5991\<close>, found by bisection.  The exact sum,
  product and quotient of two doubles and the literals of the source are well inside that
  range.
\<close>

definition le_pow2 :: "int \<Rightarrow> int \<Rightarrow> int \<Rightarrow> bool" where
  "le_pow2 d a b = (if 0 \<le> d then b * 2 ^ nat d \<le> a else b \<le> a * 2 ^ nat (- d))"

definition ilog2 :: "int \<Rightarrow> int \<Rightarrow> int" where
  "ilog2 a b =
     fold (\<lambda>step d. if le_pow2 (d + step) a b then d + step else d)
       [4096, 2048, 1024, 512, 256, 128, 64, 32, 16, 8, 4, 2, 1] (- 2200)"

text \<open>The quotient of two positive integers rounded to the nearest integer, a tie going
  to the even one.\<close>

definition round_half_even :: "int \<Rightarrow> int \<Rightarrow> int" where
  "round_half_even num den =
     (let q = num div den; r = num mod den
      in if 2 * r < den then q
         else if den < 2 * r then q + 1
         else if even q then q else q + 1)"

text \<open>
  \<open>rnd s a b k\<close> is the double nearest to the magnitude \<open>a / b * 2^k\<close> (\<open>a \<ge> 0\<close>, \<open>b > 0\<close>)
  with sign \<open>s\<close>, in the default rounding mode (to nearest, ties to even): 53 significant
  bits, the least exponent \<open>-1022\<close> (below it the numbers are spaced \<open>2^-1074\<close>), and
  overflow to infinity.
\<close>

definition rnd :: "bool \<Rightarrow> int \<Rightarrow> int \<Rightarrow> int \<Rightarrow> double" where
  "rnd s a b k =
     (if a = 0 then Fin s 0 (- 1074)
      else let e = max (k + ilog2 a b) (- 1022) - 52;
               sh = k - e;
               m = (if 0 \<le> sh then round_half_even (a * 2 ^ nat sh) b
                    else round_half_even a (b * 2 ^ nat (- sh)));
               (m', e') = (if m = 2 ^ 53 then (2 ^ 52, e + 1) else (m, e))
           in if 971 < e' then Infty s else Fin s m' e')"

text \<open>
  The operations the pass uses: \<open>+\<close>, \<open>*\<close>, \<open>/\<close>, \<open>!=\<close>, the conversion of an int, the
  conversion of a decimal literal (\<open>d_lit n k\<close> is the double nearest to \<open>n / 10^k\<close>) and the
  not-a-number test; \<open><\<close> is for the aperture check further down.  An exact zero sum of
  two finite numbers has the sign of the operands when they agree and is \<open>+0\<close> otherwise.
\<close>

definition signed :: "bool \<Rightarrow> int \<Rightarrow> int" where
  "signed s m = (if s then - m else m)"

fun d_add :: "double \<Rightarrow> double \<Rightarrow> double" where
  "d_add NaN _ = NaN"
| "d_add _ NaN = NaN"
| "d_add (Infty s) (Infty t) = (if s = t then Infty s else NaN)"
| "d_add (Infty s) (Fin _ _ _) = Infty s"
| "d_add (Fin _ _ _) (Infty t) = Infty t"
| "d_add (Fin s m e) (Fin t n f) =
     (let g = min e f;
          z = signed s m * 2 ^ nat (e - g) + signed t n * 2 ^ nat (f - g)
      in if z = 0 then Fin (s \<and> t) 0 (- 1074) else rnd (z < 0) \<bar>z\<bar> 1 g)"

fun d_mul :: "double \<Rightarrow> double \<Rightarrow> double" where
  "d_mul NaN _ = NaN"
| "d_mul _ NaN = NaN"
| "d_mul (Infty s) (Infty t) = Infty (s \<noteq> t)"
| "d_mul (Infty s) (Fin t n _) = (if n = 0 then NaN else Infty (s \<noteq> t))"
| "d_mul (Fin s m _) (Infty t) = (if m = 0 then NaN else Infty (s \<noteq> t))"
| "d_mul (Fin s m e) (Fin t n f) = rnd (s \<noteq> t) (m * n) 1 (e + f)"

fun d_div :: "double \<Rightarrow> double \<Rightarrow> double" where
  "d_div NaN _ = NaN"
| "d_div _ NaN = NaN"
| "d_div (Infty s) (Infty t) = NaN"
| "d_div (Infty s) (Fin t _ _) = Infty (s \<noteq> t)"
| "d_div (Fin s _ _) (Infty t) = Fin (s \<noteq> t) 0 (- 1074)"
| "d_div (Fin s m e) (Fin t n f) =
     (if n = 0 then (if m = 0 then NaN else Infty (s \<noteq> t))
      else rnd (s \<noteq> t) m n (e - f))"

fun d_ne :: "double \<Rightarrow> double \<Rightarrow> bool" where
  "d_ne NaN _ = True"
| "d_ne _ NaN = True"
| "d_ne (Infty s) (Infty t) = (s \<noteq> t)"
| "d_ne (Infty _) (Fin _ _ _) = True"
| "d_ne (Fin _ _ _) (Infty _) = True"
| "d_ne (Fin s m e) (Fin t n f) =
     (\<not> (m = 0 \<and> n = 0) \<and> \<not> (s = t \<and> m = n \<and> e = f))"

fun d_lt :: "double \<Rightarrow> double \<Rightarrow> bool" where
  "d_lt NaN _ = False"
| "d_lt _ NaN = False"
| "d_lt (Infty s) (Infty t) = (s \<and> \<not> t)"
| "d_lt (Infty s) (Fin _ _ _) = s"
| "d_lt (Fin _ _ _) (Infty t) = (\<not> t)"
| "d_lt (Fin s m e) (Fin t n f) =
     (let g = min e f
      in signed s m * 2 ^ nat (e - g) < signed t n * 2 ^ nat (f - g))"

definition d_int :: "int \<Rightarrow> double" where
  "d_int i = rnd (i < 0) \<bar>i\<bar> 1 0"

definition d_lit :: "int \<Rightarrow> nat \<Rightarrow> double" where
  "d_lit n k = rnd (n < 0) \<bar>n\<bar> (10 ^ k) 0"

fun d_isnan :: "double \<Rightarrow> bool" where
  "d_isnan NaN = True"
| "d_isnan _ = False"

section \<open>The integrator's constants\<close>

text \<open>
  Lines 6 to 9 of StrMPoleSymplectic4Pass.c: the four decimal literals, each the double
  nearest to it.
\<close>

definition DRIFT1 :: double where
  "DRIFT1 = d_lit 6756035959798286638 19"

definition DRIFT2 :: double where
  "DRIFT2 = d_lit (- 1756035959798286639) 19"

definition KICK1 :: double where
  "KICK1 = d_lit 1351207191959657328 18"

definition KICK2 :: double where
  "KICK2 = d_lit (- 1702414383919314656) 18"

section \<open>Particles, element parameters and the external primitives\<close>

text \<open>
  A particle is the six doubles \<open>r6[0]\<close> .. \<open>r6[5]\<close> (x, px, y, py, delta, ct).  The buffer
  \<open>r\<close> of the source holds \<open>num_particles\<close> of them one after the other, and
  \<open>r6 = r + c*6\<close> is particle \<open>c\<close>: the buffer is modelled as the list of its particles.
\<close>

record r6 =
  r6_0 :: double
  r6_1 :: double
  r6_2 :: double
  r6_3 :: double
  r6_4 :: double
  r6_5 :: double

text \<open>
  \<open>struct elem\<close>, lines 11 to 29.  The pass receives its fields as arguments (\<open>le\<close> is
  \<open>Length\<close>, \<open>A\<close> and \<open>B\<close> are \<open>PolynomA\<close> and \<open>PolynomB\<close>, \<open>max_order\<close> is \<open>MaxOrder\<close>,
  \<open>num_int_steps\<close> is \<open>NumIntSteps\<close>), as \<open>trackFunction\<close> passes them at line 136.  An array
  is the list of its entries; an optional pointer is \<open>None\<close> when it is \<open>NULL\<close>.  A C int
  is an integer: the pass only compares and counts with them.
\<close>

record elem =
  Length :: double
  PolynomA :: "double list"
  PolynomB :: "double list"
  MaxOrder :: int
  NumIntSteps :: int
  FringeQuadEntrance :: int
  FringeQuadExit :: int
  fringeIntM0 :: "double list option"
  fringeIntP0 :: "double list option"
  R1 :: "double list option"
  R2 :: "double list option"
  T1 :: "double list option"
  T2 :: "double list option"
  RApertures :: "double list option"
  EApertures :: "double list option"

text \<open>
  The pass changes a particle only through the primitives of atlalib.c, driftkick.c and
  quadfringe.c, which are not part of the sources at hand.  A call of one of them is a
  value of type \<open>call\<close>, carrying the arguments other than \<open>r6\<close>.
\<close>

datatype call =
    ATaddvv "double list"
  | ATmultmv "double list"
  | checkiflostRectangularAp "double list"
  | checkiflostEllipticalAp "double list"
  | linearQuadFringeElegantEntrance double "double list option" "double list option"
  | QuadFringePassP double
  | fastdrift double
  | strthinkick "double list" "double list" double int
  | linearQuadFringeElegantExit double "double list option" "double list option"
  | QuadFringePassN double

type_synonym extern = "call \<Rightarrow> r6 \<Rightarrow> r6"

text \<open>
  Modelled from the spec: the primitives of atlalib.c, driftkick.c and quadfringe.c.  By
  the contract of section 6 of the specification each of them mutates in place the state
  vector it is handed and nothing else (no other particle, no array of the element), so
  what the primitives do is a parameter \<open>ext\<close> of type \<open>extern\<close>: the particle after a
  call, from the call and the particle before it.  \<open>do_call\<close> makes one call on the
  particle at hand and appends it to the list of calls made so far (a record of the
  control flow, which the source does not keep).
\<close>

definition do_call :: "extern \<Rightarrow> call \<Rightarrow> r6 \<times> call list \<Rightarrow> r6 \<times> call list" where
  "do_call ext c s = (ext c (fst s), snd s @ [c])"

text \<open>\<open>if (p) f(r6, p)\<close>: the call is made when the optional array is there.\<close>

definition call_if ::
  "extern \<Rightarrow> double list option \<Rightarrow> (double list \<Rightarrow> call) \<Rightarrow> r6 \<times> call list \<Rightarrow> r6 \<times> call list"
where
  "call_if ext p f s = (case p of None \<Rightarrow> s | Some a \<Rightarrow> do_call ext (f a) s)"

text \<open>
  Modelled from the spec: \<open>atIsNaN\<close> of atelem.c, the test for the not-a-number sentinel
  of a lost particle.
\<close>

definition atIsNaN :: "double \<Rightarrow> bool" where
  "atIsNaN d = d_isnan d"

section \<open>StrMPoleSymplectic4Pass\<close>

text \<open>
  The local variables set before the particle loop, lines 43 to 49.
\<close>

record locals =
  useLinFrEleEntrance :: bool
  useLinFrEleExit :: bool
  SL :: double
  L1 :: double
  L2 :: double
  K1 :: double
  K2 :: double

definition locals_of :: "elem \<Rightarrow> locals" where
  "locals_of E =
     (let sl = d_div (Length E) (d_int (NumIntSteps E))
      in \<lparr> useLinFrEleEntrance =
             (fringeIntM0 E \<noteq> None \<and> fringeIntP0 E \<noteq> None \<and> FringeQuadEntrance E = 2),
           useLinFrEleExit =
             (fringeIntM0 E \<noteq> None \<and> fringeIntP0 E \<noteq> None \<and> FringeQuadExit E = 2),
           SL = sl,
           L1 = d_mul sl DRIFT1,
           L2 = d_mul sl DRIFT2,
           K1 = d_mul sl KICK1,
           K2 = d_mul sl KICK2 \<rparr>)"

text \<open>
  What can go wrong in the pass itself: it reads \<open>B[1]\<close> and \<open>r6[0]\<close>, \<open>r6[4]\<close> without a
  check of its own.  A read outside the array is undefined behaviour in C; the model
  stops with a fault.
\<close>

datatype fault = PolynomB_out_of_bounds | r_out_of_bounds

text \<open>Lines 60 to 64: the entrance fringe.  The \<open>else\<close> belongs to the inner \<open>if\<close>.\<close>

definition fringe_entrance ::
  "extern \<Rightarrow> elem \<Rightarrow> locals \<Rightarrow> r6 \<times> call list \<Rightarrow> fault + r6 \<times> call list"
where
  "fringe_entrance ext E loc s =
     (if FringeQuadEntrance E \<noteq> 0 then
        if length (PolynomB E) \<le> 1 then Inl PolynomB_out_of_bounds
        else if d_ne (PolynomB E ! 1) (d_int 0) then
          if useLinFrEleEntrance loc then
            Inr (do_call ext
                  (linearQuadFringeElegantEntrance (PolynomB E ! 1) (fringeIntM0 E) (fringeIntP0 E)) s)
          else Inr (do_call ext (QuadFringePassP (PolynomB E ! 1)) s)
        else Inr s
      else Inr s)"

text \<open>Lines 79 to 83: the exit fringe.\<close>

definition fringe_exit ::
  "extern \<Rightarrow> elem \<Rightarrow> locals \<Rightarrow> r6 \<times> call list \<Rightarrow> fault + r6 \<times> call list"
where
  "fringe_exit ext E loc s =
     (if FringeQuadExit E \<noteq> 0 then
        if length (PolynomB E) \<le> 1 then Inl PolynomB_out_of_bounds
        else if d_ne (PolynomB E ! 1) (d_int 0) then
          if useLinFrEleExit loc then
            Inr (do_call ext
                  (linearQuadFringeElegantExit (PolynomB E ! 1) (fringeIntM0 E) (fringeIntP0 E)) s)
          else Inr (do_call ext (QuadFringePassN (PolynomB E ! 1)) s)
        else Inr s
      else Inr s)"

text \<open>Lines 67 to 77: one slice.\<close>

definition slice :: "extern \<Rightarrow> elem \<Rightarrow> locals \<Rightarrow> r6 \<times> call list \<Rightarrow> r6 \<times> call list" where
  "slice ext E loc s =
     (let norm = d_div (d_int 1) (d_add (d_int 1) (r6_4 (fst s)));
          NormL1 = d_mul (L1 loc) norm;
          NormL2 = d_mul (L2 loc) norm
      in fold (do_call ext)
           [fastdrift NormL1,
            strthinkick (PolynomA E) (PolynomB E) (K1 loc) (MaxOrder E),
            fastdrift NormL2,
            strthinkick (PolynomA E) (PolynomB E) (K2 loc) (MaxOrder E),
            fastdrift NormL2,
            strthinkick (PolynomA E) (PolynomB E) (K1 loc) (MaxOrder E),
            fastdrift NormL1] s)"

text \<open>Line 66: the loop over slices, \<open>for (m = 0; m < num_int_steps; m++)\<close>.\<close>

function integrator ::
  "extern \<Rightarrow> elem \<Rightarrow> locals \<Rightarrow> nat \<Rightarrow> r6 \<times> call list \<Rightarrow> r6 \<times> call list"
where
  "integrator ext E loc m s =
     (if int m < NumIntSteps E then integrator ext E loc (m + 1) (slice ext E loc s) else s)"
  by pat_completeness auto
termination
  by (relation "measure (\<lambda>(ext, E, loc, m, s). nat (NumIntSteps E - int m))") auto

declare integrator.simps [simp del]

text \<open>Lines 54 to 89: what the pass does to a particle that passed the test of line 53.\<close>

definition track_particle :: "extern \<Rightarrow> elem \<Rightarrow> locals \<Rightarrow> r6 \<Rightarrow> fault + r6 \<times> call list" where
  "track_particle ext E loc p =
     (let s1 = call_if ext (T1 E) ATaddvv (p, []);
          s2 = call_if ext (R1 E) ATmultmv s1;
          s3 = call_if ext (RApertures E) checkiflostRectangularAp s2;
          s4 = call_if ext (EApertures E) checkiflostEllipticalAp s3
      in case fringe_entrance ext E loc s4 of
           Inl f \<Rightarrow> Inl f
         | Inr s5 \<Rightarrow>
            (case fringe_exit ext E loc (integrator ext E loc 0 s5) of
               Inl f \<Rightarrow> Inl f
             | Inr s7 \<Rightarrow>
                (let s8 = call_if ext (RApertures E) checkiflostRectangularAp s7;
                     s9 = call_if ext (EApertures E) checkiflostEllipticalAp s8;
                     s10 = call_if ext (R2 E) ATmultmv s9
                 in Inr (call_if ext (T2 E) ATaddvv s10))))"

text \<open>
  The state of a call of the pass: the buffer, and the calls of primitives made so far,
  each with the index of the particle it was made on.
\<close>

record state =
  buf :: "r6 list"
  trace :: "(nat \<times> call) list"

text \<open>
  Lines 52 to 90: the body of the loop over particles, for particle \<open>c\<close>.  The primitives
  work in place on \<open>r6\<close>, so the particle they leave is written back at index \<open>c\<close>.
\<close>

definition particle_step :: "extern \<Rightarrow> elem \<Rightarrow> locals \<Rightarrow> nat \<Rightarrow> state \<Rightarrow> fault + state" where
  "particle_step ext E loc c st =
     (if length (buf st) \<le> c then Inl r_out_of_bounds
      else if \<not> atIsNaN (r6_0 (buf st ! c)) then
        (case track_particle ext E loc (buf st ! c) of
           Inl f \<Rightarrow> Inl f
         | Inr (p, calls) \<Rightarrow>
             Inr \<lparr> buf = (buf st)[c := p], trace = trace st @ map (Pair c) calls \<rparr>)
      else Inr st)"

text \<open>Line 51: the loop over particles, \<open>for (c = 0; c < num_particles; c++)\<close>.\<close>

function particle_loop ::
  "extern \<Rightarrow> elem \<Rightarrow> locals \<Rightarrow> int \<Rightarrow> nat \<Rightarrow> state \<Rightarrow> fault + state"
where
  "particle_loop ext E loc num_particles c st =
     (if int c < num_particles then
        (case particle_step ext E loc c st of
           Inl f \<Rightarrow> Inl f
         | Inr st' \<Rightarrow> particle_loop ext E loc num_particles (c + 1) st')
      else Inr st)"
  by pat_completeness auto
termination
  by (relation "measure (\<lambda>(ext, E, loc, n, c, st). nat (n - int c))") auto

declare particle_loop.simps [simp del]

text \<open>Lines 31 to 92.\<close>

definition StrMPoleSymplectic4Pass :: "extern \<Rightarrow> r6 list \<Rightarrow> elem \<Rightarrow> int \<Rightarrow> fault + state" where
  "StrMPoleSymplectic4Pass ext r E num_particles =
     particle_loop ext E (locals_of E) num_particles 0 \<lparr> buf = r, trace = [] \<rparr>"

section \<open>The pipeline as the specification words it\<close>

text \<open>
  The definitions of this section follow the specification, not the source; the theorems
  below compare the pass with them.  \<open>run ext cs\<close> makes the calls \<open>cs\<close> one after the
  other; \<open>opt_call p f\<close> is the call \<open>f\<close> on an optional array, if it is there.
\<close>

definition run :: "extern \<Rightarrow> call list \<Rightarrow> r6 \<times> call list \<Rightarrow> r6 \<times> call list" where
  "run ext cs s = (fold ext cs (fst s), snd s @ cs)"

definition opt_call :: "double list option \<Rightarrow> (double list \<Rightarrow> call) \<Rightarrow> call list" where
  "opt_call p f = (case p of None \<Rightarrow> [] | Some a \<Rightarrow> [f a])"

text \<open>Entrance: translation, transform, then the two aperture checks.\<close>

definition entrance_calls :: "elem \<Rightarrow> call list" where
  "entrance_calls E =
     opt_call (T1 E) ATaddvv @ opt_call (R1 E) ATmultmv @
     opt_call (RApertures E) checkiflostRectangularAp @
     opt_call (EApertures E) checkiflostEllipticalAp"

text \<open>Exit: the two aperture checks, then transform and translation.\<close>

definition exit_calls :: "elem \<Rightarrow> call list" where
  "exit_calls E =
     opt_call (RApertures E) checkiflostRectangularAp @
     opt_call (EApertures E) checkiflostEllipticalAp @
     opt_call (R2 E) ATmultmv @ opt_call (T2 E) ATaddvv"

text \<open>
  The fringe of a side: nothing when the mode is 0 or the quadrupole coefficient is zero,
  else the linear-integral model when it is in use and the hard-edge model otherwise.
  \<open>PolynomA\<close> plays no part.
\<close>

definition fringe_entrance_calls :: "elem \<Rightarrow> locals \<Rightarrow> call list" where
  "fringe_entrance_calls E loc =
     (if FringeQuadEntrance E \<noteq> 0 \<and> d_ne (PolynomB E ! 1) (d_int 0) then
        [if useLinFrEleEntrance loc
         then linearQuadFringeElegantEntrance (PolynomB E ! 1) (fringeIntM0 E) (fringeIntP0 E)
         else QuadFringePassP (PolynomB E ! 1)]
      else [])"

definition fringe_exit_calls :: "elem \<Rightarrow> locals \<Rightarrow> call list" where
  "fringe_exit_calls E loc =
     (if FringeQuadExit E \<noteq> 0 \<and> d_ne (PolynomB E ! 1) (d_int 0) then
        [if useLinFrEleExit loc
         then linearQuadFringeElegantExit (PolynomB E ! 1) (fringeIntM0 E) (fringeIntP0 E)
         else QuadFringePassN (PolynomB E ! 1)]
      else [])"

text \<open>
  One slice on a particle \<open>p\<close>: drift(L1 norm), kick(K1), drift(L2 norm), kick(K2),
  drift(L2 norm), kick(K1), drift(L1 norm), with norm = 1/(1+delta) from the delta of \<open>p\<close>.
\<close>

definition norm_of :: "double \<Rightarrow> double" where
  "norm_of delta = d_div (d_int 1) (d_add (d_int 1) delta)"

definition drift :: "double \<Rightarrow> call" where
  "drift len = fastdrift len"

definition kick :: "elem \<Rightarrow> double \<Rightarrow> call" where
  "kick E strength = strthinkick (PolynomA E) (PolynomB E) strength (MaxOrder E)"

definition slice_calls :: "elem \<Rightarrow> locals \<Rightarrow> r6 \<Rightarrow> call list" where
  "slice_calls E loc p =
     [drift (d_mul (L1 loc) (norm_of (r6_4 p))), kick E (K1 loc),
      drift (d_mul (L2 loc) (norm_of (r6_4 p))), kick E (K2 loc),
      drift (d_mul (L2 loc) (norm_of (r6_4 p))), kick E (K1 loc),
      drift (d_mul (L1 loc) (norm_of (r6_4 p)))]"

text \<open>\<open>k\<close> slices, each on the particle that the slice before it has left.\<close>

fun integrator_calls :: "extern \<Rightarrow> elem \<Rightarrow> locals \<Rightarrow> nat \<Rightarrow> r6 \<Rightarrow> call list" where
  "integrator_calls ext E loc 0 p = []"
| "integrator_calls ext E loc (Suc k) p =
     slice_calls E loc p @ integrator_calls ext E loc k (fold ext (slice_calls E loc p) p)"

text \<open>The stages after the entrance aperture checks, for the particle \<open>q\<close> these have left.\<close>

definition after_entrance_calls :: "extern \<Rightarrow> elem \<Rightarrow> locals \<Rightarrow> r6 \<Rightarrow> call list" where
  "after_entrance_calls ext E loc q =
     fringe_entrance_calls E loc @
     integrator_calls ext E loc (nat (NumIntSteps E)) (fold ext (fringe_entrance_calls E loc) q) @
     fringe_exit_calls E loc @ exit_calls E"

text \<open>The whole pipeline of a particle \<open>p\<close>.\<close>

definition particle_calls :: "extern \<Rightarrow> elem \<Rightarrow> locals \<Rightarrow> r6 \<Rightarrow> call list" where
  "particle_calls ext E loc p =
     entrance_calls E @ after_entrance_calls ext E loc (fold ext (entrance_calls E) p)"

text \<open>
  What a call of the pass does to one particle, as a function of that particle and of the
  element alone: nothing if it carries the sentinel, the pipeline otherwise, unless the
  fringe needs a \<open>PolynomB[1]\<close> that is not there.
\<close>

definition particle_result :: "extern \<Rightarrow> elem \<Rightarrow> r6 \<Rightarrow> fault + r6 \<times> call list" where
  "particle_result ext E p =
     (if atIsNaN (r6_0 p) then Inr (p, [])
      else if (FringeQuadEntrance E \<noteq> 0 \<or> FringeQuadExit E \<noteq> 0) \<and> length (PolynomB E) \<le> 1
      then Inl PolynomB_out_of_bounds
      else Inr (fold ext (particle_calls ext E (locals_of E) p) p,
                particle_calls ext E (locals_of E) p))"

text \<open>The calls made on particle \<open>i\<close>, in the order in which they were made.\<close>

definition calls_of :: "nat \<Rightarrow> (nat \<times> call) list \<Rightarrow> call list" where
  "calls_of i tr = map snd (filter (\<lambda>e. fst e = i) tr)"

fun is_aperture_check :: "call \<Rightarrow> bool" where
  "is_aperture_check (checkiflostRectangularAp _) = True"
| "is_aperture_check (checkiflostEllipticalAp _) = True"
| "is_aperture_check _ = False"

fun is_drift_or_kick :: "call \<Rightarrow> bool" where
  "is_drift_or_kick (fastdrift _) = True"
| "is_drift_or_kick (strthinkick _ _ _ _) = True"
| "is_drift_or_kick _ = False"

fun is_fringe :: "call \<Rightarrow> bool" where
  "is_fringe (linearQuadFringeElegantEntrance _ _ _) = True"
| "is_fringe (QuadFringePassP _) = True"
| "is_fringe (linearQuadFringeElegantExit _ _ _) = True"
| "is_fringe (QuadFringePassN _) = True"
| "is_fringe _ = False"

text \<open>
  A call that the step coefficients of the specification account for: a drift over
  \<open>SL*DRIFT1\<close> or \<open>SL*DRIFT2\<close> times a norm \<open>1/(1+delta)\<close>, a kick of strength \<open>SL*KICK1\<close> or
  \<open>SL*KICK2\<close>, with \<open>SL = Length/NumIntSteps\<close>; any call that is neither drift nor kick.
\<close>

definition uses_coefficients :: "elem \<Rightarrow> call \<Rightarrow> bool" where
  "uses_coefficients E c =
     (let sl = d_div (Length E) (d_int (NumIntSteps E))
      in case c of
           fastdrift len \<Rightarrow>
             (\<exists>delta. len = d_mul (d_mul sl DRIFT1) (norm_of delta) \<or>
                      len = d_mul (d_mul sl DRIFT2) (norm_of delta))
         | strthinkick A B strength max_order \<Rightarrow>
             (strength = d_mul sl KICK1 \<or> strength = d_mul sl KICK2) \<and>
             A = PolynomA E \<and> B = PolynomB E \<and> max_order = MaxOrder E
         | _ \<Rightarrow> True)"

text \<open>
  The slices with the coefficients written out: \<open>SL = Length/NumIntSteps\<close>, the drifts over
  \<open>SL*DRIFT1\<close> and \<open>SL*DRIFT2\<close> times the norm, the kicks of strength \<open>SL*KICK1\<close> and
  \<open>SL*KICK2\<close>; \<open>k\<close> slices, each on the particle that the slice before it has left.
\<close>

definition coefficient_slice :: "elem \<Rightarrow> r6 \<Rightarrow> call list" where
  "coefficient_slice E p =
     (let sl = d_div (Length E) (d_int (NumIntSteps E));
          nrm = d_div (d_int 1) (d_add (d_int 1) (r6_4 p))
      in [fastdrift (d_mul (d_mul sl DRIFT1) nrm),
          strthinkick (PolynomA E) (PolynomB E) (d_mul sl KICK1) (MaxOrder E),
          fastdrift (d_mul (d_mul sl DRIFT2) nrm),
          strthinkick (PolynomA E) (PolynomB E) (d_mul sl KICK2) (MaxOrder E),
          fastdrift (d_mul (d_mul sl DRIFT2) nrm),
          strthinkick (PolynomA E) (PolynomB E) (d_mul sl KICK1) (MaxOrder E),
          fastdrift (d_mul (d_mul sl DRIFT1) nrm)])"

fun coefficient_slices :: "extern \<Rightarrow> elem \<Rightarrow> nat \<Rightarrow> r6 \<Rightarrow> call list" where
  "coefficient_slices ext E 0 p = []"
| "coefficient_slices ext E (Suc k) p =
     coefficient_slice E p @ coefficient_slices ext E k (fold ext (coefficient_slice E p) p)"

text \<open>The particles processed in a given order of their indices, each by the loop body.\<close>

fun pass_in_order :: "extern \<Rightarrow> elem \<Rightarrow> nat list \<Rightarrow> state \<Rightarrow> fault + state" where
  "pass_in_order ext E [] st = Inr st"
| "pass_in_order ext E (c # cs) st =
     (case particle_step ext E (locals_of E) c st of
        Inl f \<Rightarrow> Inl f
      | Inr st' \<Rightarrow> pass_in_order ext E cs st')"

text \<open>
  A call whose reads stay inside the arrays: the buffer holds \<open>num_particles\<close> particles,
  and \<open>PolynomB\<close> has an entry 1 when a fringe mode is set.
\<close>

definition safe_call :: "r6 list \<Rightarrow> elem \<Rightarrow> int \<Rightarrow> bool" where
  "safe_call r E num_particles =
     (nat num_particles \<le> length r \<and>
      (FringeQuadEntrance E = 0 \<and> FringeQuadExit E = 0 \<or> 2 \<le> length (PolynomB E)))"

section \<open>Primitives and inputs to evaluate the pass on\<close>

text \<open>
  Modelled from the spec: an instance of the primitives, for the concrete calls below.
  \<open>ATaddvv\<close> adds the offset to the particle (section 6: add offset).
  \<open>checkiflostRectangularAp\<close> tests x and y against the limits
  \<open>[xmin, xmax, ymin, ymax]\<close> and on violation marks the particle lost, by the sentinel that
  line 53 of the source tests (section 6: test the transverse position against the limits;
  on violation, mark the state lost).  The specification gives no formula for the other
  primitives, and this instance lets them leave the particle as it is.  The theorems
  further down that speak of \<open>ext\<close> hold for every instance.
\<close>

definition addvv :: "r6 \<Rightarrow> double list \<Rightarrow> r6" where
  "addvv p v =
     (if length v = 6 then
        \<lparr> r6_0 = d_add (r6_0 p) (v ! 0), r6_1 = d_add (r6_1 p) (v ! 1),
          r6_2 = d_add (r6_2 p) (v ! 2), r6_3 = d_add (r6_3 p) (v ! 3),
          r6_4 = d_add (r6_4 p) (v ! 4), r6_5 = d_add (r6_5 p) (v ! 5) \<rparr>
      else p)"

definition rectangular_check :: "r6 \<Rightarrow> double list \<Rightarrow> r6" where
  "rectangular_check p lim =
     (if length lim = 4 \<and>
         (d_lt (r6_0 p) (lim ! 0) \<or> d_lt (lim ! 1) (r6_0 p) \<or>
          d_lt (r6_2 p) (lim ! 2) \<or> d_lt (lim ! 3) (r6_2 p))
      then p\<lparr> r6_0 := NaN \<rparr> else p)"

fun ext_spec :: extern where
  "ext_spec (ATaddvv v) p = addvv p v"
| "ext_spec (checkiflostRectangularAp lim) p = rectangular_check p lim"
| "ext_spec _ p = p"

text \<open>
  A particle on the axis; a particle at x = 2; a particle with a finite x and every other
  coordinate not-a-number; a particle that carries the sentinel.
\<close>

definition on_axis :: r6 where
  "on_axis = \<lparr> r6_0 = d_int 0, r6_1 = d_int 0, r6_2 = d_int 0,
               r6_3 = d_int 0, r6_4 = d_int 0, r6_5 = d_int 0 \<rparr>"

definition at_x2 :: r6 where
  "at_x2 = on_axis\<lparr> r6_0 := d_int 2 \<rparr>"

definition nan_but_x :: r6 where
  "nan_but_x = \<lparr> r6_0 = d_int 0, r6_1 = NaN, r6_2 = NaN, r6_3 = NaN, r6_4 = NaN, r6_5 = NaN \<rparr>"

definition lost :: r6 where
  "lost = on_axis\<lparr> r6_0 := NaN \<rparr>"

text \<open>
  A quadrupole of length 1 and strength 1 in one slice, with no optional field; the limits
  \<open>[-1, 1, -1, 1]\<close> of a rectangular aperture, the limits of an elliptical one, and a
  shift by 1 in y.
\<close>

definition quad :: elem where
  "quad = \<lparr> Length = d_int 1, PolynomA = [d_int 0, d_int 0], PolynomB = [d_int 0, d_int 1],
            MaxOrder = 1, NumIntSteps = 1, FringeQuadEntrance = 0, FringeQuadExit = 0,
            fringeIntM0 = None, fringeIntP0 = None, R1 = None, R2 = None, T1 = None, T2 = None,
            RApertures = None, EApertures = None \<rparr>"

definition rect_limits :: "double list" where
  "rect_limits = [d_int (- 1), d_int 1, d_int (- 1), d_int 1]"

definition ellip_limits :: "double list" where
  "ellip_limits = [d_int 2, d_int 2, d_int 2, d_int 2]"

definition shift_y :: "double list" where
  "shift_y = [d_int 0, d_int 0, d_int 1, d_int 0, d_int 0, d_int 0]"

text \<open>The seven calls of the one slice of \<open>quad\<close> on a particle with delta = 0.\<close>

definition quad_slice :: "call list" where
  "quad_slice =
     [fastdrift DRIFT1, strthinkick (PolynomA quad) (PolynomB quad) KICK1 1,
      fastdrift DRIFT2, strthinkick (PolynomA quad) (PolynomB quad) KICK2 1,
      fastdrift DRIFT2, strthinkick (PolynomA quad) (PolynomB quad) KICK1 1,
      fastdrift DRIFT1]"

section \<open>The pass makes the calls of the pipeline\<close>

text \<open>Every stage of the model is a \<open>run\<close> of its list of calls.\<close>

lemma run_Nil: "run ext [] s = s"
  by (simp add: run_def)

lemma run_run: "run ext ds (run ext cs s) = run ext (cs @ ds) s"
  by (simp add: run_def)

lemma do_call_run: "do_call ext c s = run ext [c] s"
  by (simp add: do_call_def run_def)

lemma call_if_run: "call_if ext p f s = run ext (opt_call p f) s"
  by (cases p) (simp_all add: call_if_def opt_call_def run_Nil do_call_run)

lemma fold_do_call_run: "fold (do_call ext) cs s = run ext cs s"
proof (induction cs arbitrary: s)
  case Nil
  show ?case by (simp add: run_Nil)
next
  case (Cons c cs)
  have "fold (do_call ext) (c # cs) s = run ext cs (run ext [c] s)"
    by (simp add: Cons.IH do_call_run)
  then show ?case by (simp add: run_run)
qed

lemma slice_run: "slice ext E loc s = run ext (slice_calls E loc (fst s)) s"
  unfolding slice_def Let_def fold_do_call_run
  by (simp add: slice_calls_def drift_def kick_def norm_of_def)

lemma integrator_run:
  "integrator ext E loc m s =
     run ext (integrator_calls ext E loc (nat (NumIntSteps E - int m)) (fst s)) s"
proof (induction ext E loc m s rule: integrator.induct)
  case (1 ext E loc m s)
  show ?case
  proof (cases "int m < NumIntSteps E")
    case True
    then have k: "nat (NumIntSteps E - int m) = Suc (nat (NumIntSteps E - int (m + 1)))"
      by simp
    have "integrator ext E loc m s = integrator ext E loc (m + 1) (slice ext E loc s)"
      using True by (subst integrator.simps) simp
    also have "\<dots> = run ext (integrator_calls ext E loc (nat (NumIntSteps E - int (m + 1)))
                         (fst (slice ext E loc s))) (slice ext E loc s)"
      using "1.IH" [OF True] .
    also have "\<dots> = run ext (integrator_calls ext E loc (nat (NumIntSteps E - int m)) (fst s)) s"
      unfolding k by (simp add: slice_run run_run) (simp add: run_def)
    finally show ?thesis .
  next
    case False
    then have "nat (NumIntSteps E - int m) = 0" by simp
    moreover have "integrator ext E loc m s = s"
      using False by (subst integrator.simps) simp
    ultimately show ?thesis by (simp add: run_Nil)
  qed
qed

lemma fringe_entrance_eq:
  "fringe_entrance ext E loc s =
     (if FringeQuadEntrance E \<noteq> 0 \<and> length (PolynomB E) \<le> 1 then Inl PolynomB_out_of_bounds
      else Inr (run ext (fringe_entrance_calls E loc) s))"
  by (simp add: fringe_entrance_def fringe_entrance_calls_def do_call_run run_Nil)

lemma fringe_exit_eq:
  "fringe_exit ext E loc s =
     (if FringeQuadExit E \<noteq> 0 \<and> length (PolynomB E) \<le> 1 then Inl PolynomB_out_of_bounds
      else Inr (run ext (fringe_exit_calls E loc) s))"
  by (simp add: fringe_exit_def fringe_exit_calls_def do_call_run run_Nil)


lemma track_particle_eq:
  "track_particle ext E loc p =
     (if (FringeQuadEntrance E \<noteq> 0 \<or> FringeQuadExit E \<noteq> 0) \<and> length (PolynomB E) \<le> 1
      then Inl PolynomB_out_of_bounds
      else Inr (run ext (particle_calls ext E loc p) (p, [])))"
  unfolding track_particle_def Let_def call_if_run run_run fringe_entrance_eq fringe_exit_eq
    integrator_run
  by (simp add: run_run particle_calls_def after_entrance_calls_def entrance_calls_def
      exit_calls_def) (simp add: run_def)


lemma calls_of_Nil: "calls_of i [] = []"
  by (simp add: calls_of_def)

lemma calls_of_append: "calls_of i (a @ b) = calls_of i a @ calls_of i b"
  by (simp add: calls_of_def)

lemma calls_of_map_Pair: "calls_of i (map (Pair c) cs) = (if i = c then cs else [])"
  by (auto simp: calls_of_def filter_map comp_def)

lemma particle_step_eq:
  "particle_step ext E (locals_of E) c st =
     (if length (buf st) \<le> c then Inl r_out_of_bounds
      else case particle_result ext E (buf st ! c) of
             Inl f \<Rightarrow> Inl f
           | Inr (p, cs) \<Rightarrow> Inr \<lparr> buf = (buf st)[c := p], trace = trace st @ map (Pair c) cs \<rparr>)"
  by (simp add: particle_step_def particle_result_def track_particle_eq run_def)

lemma particle_step_Inr:
  assumes "particle_step ext E (locals_of E) c st = Inr st'"
  shows "c < length (buf st)"
    and "length (buf st') = length (buf st)"
    and "\<exists>cs. particle_result ext E (buf st ! c) = Inr (buf st' ! c, cs) \<and>
              trace st' = trace st @ map (Pair c) cs"
    and "i \<noteq> c \<Longrightarrow> buf st' ! i = buf st ! i"
  using assms unfolding particle_step_eq
  by (auto split: if_splits sum.splits prod.splits)

lemma pass_in_order_Inr:
  assumes "pass_in_order ext E ord st = Inr st'" and "distinct ord"
  shows "length (buf st') = length (buf st)"
    and "i \<in> set ord \<Longrightarrow> i < length (buf st) \<and>
           (\<exists>cs. particle_result ext E (buf st ! i) = Inr (buf st' ! i, cs) \<and>
                 calls_of i (trace st') = calls_of i (trace st) @ cs)"
    and "i \<notin> set ord \<Longrightarrow> buf st' ! i = buf st ! i \<and> calls_of i (trace st') = calls_of i (trace st)"
  using assms
proof (induction ord arbitrary: st i)
  case Nil
  {
    case 1 then show ?case by simp
  next
    case 2 then show ?case by simp
  next
    case 3 then show ?case by simp
  }
next
  case (Cons c cs)
  {
    case 1
    then obtain st1 where s1: "particle_step ext E (locals_of E) c st = Inr st1"
      and r1: "pass_in_order ext E cs st1 = Inr st'"
      by (auto split: sum.splits)
    from 1 have d: "distinct cs" by simp
    show ?case using Cons.IH(1) [OF r1 d] particle_step_Inr(2) [OF s1] by simp
  next
    case 2
    then obtain st1 where s1: "particle_step ext E (locals_of E) c st = Inr st1"
      and r1: "pass_in_order ext E cs st1 = Inr st'"
      by (auto split: sum.splits)
    from 2 have d: "distinct cs" and nc: "c \<notin> set cs" by simp_all
    from particle_step_Inr(3) [OF s1] obtain xs where
      xs: "particle_result ext E (buf st ! c) = Inr (buf st1 ! c, xs)"
          "trace st1 = trace st @ map (Pair c) xs" by blast
    show ?case
    proof (cases "i = c")
      case True
      from Cons.IH(3) [OF nc r1 d]
      have "buf st' ! c = buf st1 ! c" "calls_of c (trace st') = calls_of c (trace st1)"
        by simp_all
      then show ?thesis
        using True xs particle_step_Inr(1) [OF s1]
        by (simp add: calls_of_append calls_of_map_Pair)
    next
      case False
      with 2 have "i \<in> set cs" by simp
      from Cons.IH(2) [OF this r1 d] obtain ys where
        ys: "i < length (buf st1)" "particle_result ext E (buf st1 ! i) = Inr (buf st' ! i, ys)"
            "calls_of i (trace st') = calls_of i (trace st1) @ ys" by blast
      then show ?thesis
        using False xs(2) particle_step_Inr(2,4) [OF s1]
        by (simp add: calls_of_append calls_of_map_Pair)
    qed
  next
    case 3
    then obtain st1 where s1: "particle_step ext E (locals_of E) c st = Inr st1"
      and r1: "pass_in_order ext E cs st1 = Inr st'"
      by (auto split: sum.splits)
    from 3 have d: "distinct cs" and ic: "i \<noteq> c" "i \<notin> set cs" by simp_all
    from particle_step_Inr(3) [OF s1] obtain xs where
      xs: "trace st1 = trace st @ map (Pair c) xs" by blast
    from Cons.IH(3) [OF ic(2) r1 d] show ?case
      using ic(1) xs particle_step_Inr(4) [OF s1]
      by (simp add: calls_of_append calls_of_map_Pair)
  }
qed

text \<open>The loop over particles is the loop body at the indices in ascending order.\<close>

lemma particle_step_total:
  assumes "c < length (buf st)" and "particle_result ext E (buf st ! c) = Inr res"
  shows "\<exists>st'. particle_step ext E (locals_of E) c st = Inr st'"
  using assms unfolding particle_step_eq by (auto split: prod.splits)

lemma pass_in_order_total:
  assumes "distinct ord"
    and "\<And>i. i \<in> set ord \<Longrightarrow> i < length (buf st) \<and> (\<exists>res. particle_result ext E (buf st ! i) = Inr res)"
  shows "\<exists>st'. pass_in_order ext E ord st = Inr st'"
  using assms
proof (induction ord arbitrary: st)
  case Nil
  show ?case by simp
next
  case (Cons c cs)
  from Cons.prems(2) [of c] obtain res where
    c: "c < length (buf st)" "particle_result ext E (buf st ! c) = Inr res" by auto
  from particle_step_total [OF c] obtain st1 where
    s1: "particle_step ext E (locals_of E) c st = Inr st1" by blast
  have d: "distinct cs" and nc: "c \<notin> set cs" using Cons.prems(1) by simp_all
  have "\<exists>st'. pass_in_order ext E cs st1 = Inr st'"
  proof (rule Cons.IH [OF d])
    fix i assume i: "i \<in> set cs"
    then have "i \<noteq> c" using nc by auto
    then show "i < length (buf st1) \<and> (\<exists>res. particle_result ext E (buf st1 ! i) = Inr res)"
      using Cons.prems(2) [of i] i particle_step_Inr(2,4) [OF s1] by simp
  qed
  then show ?case using s1 by simp
qed

lemma particle_loop_in_order:
  "particle_loop ext E (locals_of E) n c st = pass_in_order ext E [c..<nat n] st"
proof (induction "nat n - c" arbitrary: c st)
  case 0
  then have "\<not> int c < n" by linarith
  moreover from 0 have "[c..<nat n] = []" by simp
  ultimately show ?case by (subst particle_loop.simps) simp
next
  case (Suc k)
  then have lt: "int c < n" and cn: "c < nat n" by linarith+
  have k: "k = nat n - (c + 1)" using Suc.hyps(2) by simp
  have "[c..<nat n] = c # [c + 1..<nat n]" using cn by (simp add: upt_conv_Cons)
  then show ?case
    using lt Suc.hyps(1) [OF k]
    by (subst particle_loop.simps) (simp split: sum.splits)
qed

lemma pass_in_order_eq:
  "StrMPoleSymplectic4Pass ext r E n = pass_in_order ext E [0..<nat n] \<lparr> buf = r, trace = [] \<rparr>"
  by (simp add: StrMPoleSymplectic4Pass_def particle_loop_in_order)

lemma pass_Inr:
  assumes "StrMPoleSymplectic4Pass ext r E n = Inr st"
  shows "length (buf st) = length r"
    and "i < nat n \<Longrightarrow> i < length r \<and> particle_result ext E (r ! i) = Inr (buf st ! i, calls_of i (trace st))"
    and "\<not> i < nat n \<Longrightarrow> buf st ! i = r ! i \<and> calls_of i (trace st) = []"
proof -
  have p: "pass_in_order ext E [0..<nat n] \<lparr> buf = r, trace = [] \<rparr> = Inr st"
    using assms by (simp add: pass_in_order_eq)
  show "length (buf st) = length r"
    using pass_in_order_Inr(1) [OF p] by simp
  show "i < length r \<and> particle_result ext E (r ! i) = Inr (buf st ! i, calls_of i (trace st))"
    if "i < nat n"
    using pass_in_order_Inr(2) [OF p, of i] that by (auto simp: calls_of_Nil)
  show "buf st ! i = r ! i \<and> calls_of i (trace st) = []" if "\<not> i < nat n"
    using pass_in_order_Inr(3) [OF p, of i] that by (simp add: calls_of_Nil)
qed

lemma pass_total:
  assumes "safe_call r E n"
  shows "\<exists>st. StrMPoleSymplectic4Pass ext r E n = Inr st"
  unfolding pass_in_order_eq
proof (rule pass_in_order_total)
  show "distinct [0..<nat n]" by simp
  fix i assume "i \<in> set [0..<nat n]"
  then show "i < length (buf \<lparr> buf = r, trace = [] \<rparr>) \<and>
    (\<exists>res. particle_result ext E (buf \<lparr> buf = r, trace = [] \<rparr> ! i) = Inr res)"
    using assms by (auto simp: safe_call_def particle_result_def)
qed

text \<open>Which calls of the pipeline are aperture checks, drifts and kicks, fringes.\<close>

lemma integrator_calls_cong:
  assumes "PolynomA E' = PolynomA E" "PolynomB E' = PolynomB E" "MaxOrder E' = MaxOrder E"
  shows "integrator_calls ext E' loc k p = integrator_calls ext E loc k p"
  using assms by (induction k arbitrary: p) (simp_all add: slice_calls_def kick_def)

lemma filter_opt_call:
  "filter P (opt_call p f) = (case p of None \<Rightarrow> [] | Some a \<Rightarrow> if P (f a) then [f a] else [])"
  by (cases p) (simp_all add: opt_call_def)

lemma aperture_opt_call [simp]:
  "filter is_aperture_check (opt_call p ATaddvv) = []"
  "filter is_aperture_check (opt_call p ATmultmv) = []"
  "filter is_aperture_check (opt_call p checkiflostRectangularAp) = opt_call p checkiflostRectangularAp"
  "filter is_aperture_check (opt_call p checkiflostEllipticalAp) = opt_call p checkiflostEllipticalAp"
  by (cases p; simp add: opt_call_def)+

lemma aperture_integrator_calls: "filter is_aperture_check (integrator_calls ext E loc k p) = []"
  by (induction k arbitrary: p) (simp_all add: slice_calls_def drift_def kick_def)

lemma aperture_fringe:
  "filter is_aperture_check (fringe_entrance_calls E loc) = []"
  "filter is_aperture_check (fringe_exit_calls E loc) = []"
  by (simp_all add: fringe_entrance_calls_def fringe_exit_calls_def)

lemma aperture_particle_calls:
  "filter is_aperture_check (particle_calls ext E loc p) =
     opt_call (RApertures E) checkiflostRectangularAp @
     opt_call (EApertures E) checkiflostEllipticalAp @
     opt_call (RApertures E) checkiflostRectangularAp @
     opt_call (EApertures E) checkiflostEllipticalAp"
  by (simp add: particle_calls_def after_entrance_calls_def entrance_calls_def exit_calls_def
      aperture_integrator_calls aperture_fringe)

lemma drift_kick_entrance: "filter is_drift_or_kick (entrance_calls E) = []"
  by (simp add: entrance_calls_def filter_opt_call split: option.splits)

lemma drift_kick_exit: "filter is_drift_or_kick (exit_calls E) = []"
  by (simp add: exit_calls_def filter_opt_call split: option.splits)

lemma drift_kick_fringe:
  "filter is_drift_or_kick (fringe_entrance_calls E loc) = []"
  "filter is_drift_or_kick (fringe_exit_calls E loc) = []"
  by (simp_all add: fringe_entrance_calls_def fringe_exit_calls_def)

lemma drift_kick_integrator_calls:
  "filter is_drift_or_kick (integrator_calls ext E loc k p) = integrator_calls ext E loc k p"
  by (induction k arbitrary: p) (simp_all add: slice_calls_def drift_def kick_def)

lemma length_integrator_calls: "length (integrator_calls ext E loc k p) = 7 * k"
  by (induction k arbitrary: p) (simp_all add: slice_calls_def)

lemma drift_kick_particle_calls:
  "filter is_drift_or_kick (particle_calls ext E loc p) =
     integrator_calls ext E loc (nat (NumIntSteps E))
       (fold ext (entrance_calls E @ fringe_entrance_calls E loc) p)"
  by (simp add: particle_calls_def after_entrance_calls_def drift_kick_entrance drift_kick_exit
      drift_kick_fringe drift_kick_integrator_calls)

lemma fringe_entrance_exit_filter:
  "filter is_fringe (entrance_calls E) = []" "filter is_fringe (exit_calls E) = []"
  by (simp_all add: entrance_calls_def exit_calls_def filter_opt_call split: option.splits)

lemma fringe_integrator_calls: "filter is_fringe (integrator_calls ext E loc k p) = []"
  by (induction k arbitrary: p) (simp_all add: slice_calls_def drift_def kick_def)

lemma fringe_fringe:
  "filter is_fringe (fringe_entrance_calls E loc) = fringe_entrance_calls E loc"
  "filter is_fringe (fringe_exit_calls E loc) = fringe_exit_calls E loc"
  by (simp_all add: fringe_entrance_calls_def fringe_exit_calls_def)

lemma fringe_particle_calls:
  "filter is_fringe (particle_calls ext E loc p) =
     fringe_entrance_calls E loc @ fringe_exit_calls E loc"
  by (simp add: particle_calls_def after_entrance_calls_def fringe_entrance_exit_filter
      fringe_integrator_calls fringe_fringe)

lemma uses_coefficients_integrator_calls:
  "c \<in> set (integrator_calls ext E (locals_of E) k p) \<Longrightarrow> uses_coefficients E c"
proof (induction k arbitrary: p)
  case 0
  then show ?case by simp
next
  case (Suc k)
  from Suc.prems consider "c \<in> set (slice_calls E (locals_of E) p)"
    | "c \<in> set (integrator_calls ext E (locals_of E) k (fold ext (slice_calls E (locals_of E) p) p))"
    by auto
  then show ?case
  proof cases
    case 1
    then show ?thesis
      by (auto simp: slice_calls_def drift_def kick_def uses_coefficients_def locals_of_def Let_def)
  next
    case 2
    then show ?thesis by (rule Suc.IH)
  qed
qed

lemma uses_coefficients_other: "\<not> is_drift_or_kick c \<Longrightarrow> uses_coefficients E c"
  by (cases c) (simp_all add: uses_coefficients_def)

lemma uses_coefficients_particle_calls:
  assumes "c \<in> set (particle_calls ext E (locals_of E) p)"
  shows "uses_coefficients E c"
proof (cases "is_drift_or_kick c")
  case True
  with assms have "c \<in> set (filter is_drift_or_kick (particle_calls ext E (locals_of E) p))"
    by simp
  then show ?thesis
    unfolding drift_kick_particle_calls by (rule uses_coefficients_integrator_calls)
next
  case False
  then show ?thesis by (rule uses_coefficients_other)
qed

lemma in_calls_of: "(i, c) \<in> set tr \<Longrightarrow> c \<in> set (calls_of i tr)"
  by (force simp: calls_of_def)

lemma particle_result_live:
  assumes "\<not> atIsNaN (r6_0 p)"
    and "FringeQuadEntrance E = 0 \<and> FringeQuadExit E = 0 \<or> 2 \<le> length (PolynomB E)"
  shows "particle_result ext E p =
           Inr (fold ext (particle_calls ext E (locals_of E) p) p, particle_calls ext E (locals_of E) p)"
  using assms by (auto simp: particle_result_def)

lemma pass_live:
  assumes "safe_call r E n" and "i < nat n" and "\<not> atIsNaN (r6_0 (r ! i))"
  shows "\<exists>st. StrMPoleSymplectic4Pass ext r E n = Inr st \<and>
              buf st ! i = fold ext (particle_calls ext E (locals_of E) (r ! i)) (r ! i) \<and>
              calls_of i (trace st) = particle_calls ext E (locals_of E) (r ! i)"
proof -
  from pass_total [OF assms(1)] obtain st where st: "StrMPoleSymplectic4Pass ext r E n = Inr st"
    by blast
  have "particle_result ext E (r ! i) =
          Inr (fold ext (particle_calls ext E (locals_of E) (r ! i)) (r ! i),
               particle_calls ext E (locals_of E) (r ! i))"
    using assms(1,3) by (intro particle_result_live) (simp_all add: safe_call_def)
  with pass_Inr(2) [OF st assms(2)] have
    "buf st ! i = fold ext (particle_calls ext E (locals_of E) (r ! i)) (r ! i)"
    "calls_of i (trace st) = particle_calls ext E (locals_of E) (r ! i)"
    by auto
  with st show ?thesis by blast
qed

lemma particle_result_Inl: "particle_result ext E p = Inl f \<Longrightarrow> f = PolynomB_out_of_bounds"
  by (auto simp: particle_result_def split: if_splits)

lemma pass_in_order_fault:
  assumes "distinct ord" and "\<And>c. c \<in> set ord \<Longrightarrow> c < length (buf st)"
    and "i \<in> set ord" and "particle_result ext E (buf st ! i) = Inl f"
  shows "pass_in_order ext E ord st = Inl PolynomB_out_of_bounds"
  using assms
proof (induction ord arbitrary: st)
  case Nil
  then show ?case by simp
next
  case (Cons c cs)
  have c: "c < length (buf st)" using Cons.prems(2) by simp
  show ?case
  proof (cases "particle_result ext E (buf st ! c)")
    case (Inl g)
    then show ?thesis using c particle_result_Inl [OF Inl] by (simp add: particle_step_eq)
  next
    case (Inr res)
    from particle_step_total [OF c Inr] obtain st1 where
      s1: "particle_step ext E (locals_of E) c st = Inr st1" by blast
    from Inr Cons.prems(4) have ic: "i \<noteq> c" by auto
    with Cons.prems(3) have i: "i \<in> set cs" by simp
    have "pass_in_order ext E cs st1 = Inl PolynomB_out_of_bounds"
    proof (rule Cons.IH [OF _ _ i])
      show "distinct cs" using Cons.prems(1) by simp
      show "k < length (buf st1)" if "k \<in> set cs" for k
        using that Cons.prems(2) [of k] particle_step_Inr(2) [OF s1] by simp
      show "particle_result ext E (buf st1 ! i) = Inl f"
        using Cons.prems(4) particle_step_Inr(4) [OF s1 ic] by simp
    qed
    then show ?thesis using s1 by simp
  qed
qed


lemma pass_in_order_cong:
  assumes "\<And>p. particle_result ext E' p = particle_result ext E p"
  shows "pass_in_order ext E' ord st = pass_in_order ext E ord st"
  by (induction ord arbitrary: st) (simp_all add: particle_step_eq assms split: sum.splits)

lemma fringe_calls_without_integrals:
  assumes "fringeIntM0 E = None \<or> fringeIntP0 E = None"
    and "E' = E\<lparr> FringeQuadEntrance := (if FringeQuadEntrance E = 2 then 1 else FringeQuadEntrance E),
                 FringeQuadExit := (if FringeQuadExit E = 2 then 1 else FringeQuadExit E) \<rparr>"
  shows "locals_of E' = locals_of E"
    and "fringe_entrance_calls E' (locals_of E) = fringe_entrance_calls E (locals_of E)"
    and "fringe_exit_calls E' (locals_of E) = fringe_exit_calls E (locals_of E)"
  using assms
  by (auto simp: locals_of_def Let_def fringe_entrance_calls_def fringe_exit_calls_def)

lemma particle_result_without_integrals:
  assumes "fringeIntM0 E = None \<or> fringeIntP0 E = None"
    and "E' = E\<lparr> FringeQuadEntrance := (if FringeQuadEntrance E = 2 then 1 else FringeQuadEntrance E),
                 FringeQuadExit := (if FringeQuadExit E = 2 then 1 else FringeQuadExit E) \<rparr>"
  shows "particle_result ext E' p = particle_result ext E p"
proof -
  note f = fringe_calls_without_integrals [OF assms]
  have i: "integrator_calls ext E' (locals_of E) k q = integrator_calls ext E (locals_of E) k q"
    for k q by (rule integrator_calls_cong) (simp_all add: assms(2))
  have c: "particle_calls ext E' (locals_of E') p = particle_calls ext E (locals_of E) p"
    unfolding f(1) particle_calls_def after_entrance_calls_def f(2,3) i
    by (simp add: assms(2) entrance_calls_def exit_calls_def)
  have "(FringeQuadEntrance E' \<noteq> 0 \<or> FringeQuadExit E' \<noteq> 0) =
        (FringeQuadEntrance E \<noteq> 0 \<or> FringeQuadExit E \<noteq> 0)"
    by (simp add: assms(2))
  moreover have "PolynomB E' = PolynomB E" by (simp add: assms(2))
  ultimately show ?thesis unfolding particle_result_def c by simp
qed

text \<open>The slices of the pass carry the coefficients; the fringe without the integral
  vectors is the hard-edge one.\<close>

lemma slice_calls_coefficients: "slice_calls E (locals_of E) p = coefficient_slice E p"
  by (simp add: slice_calls_def coefficient_slice_def locals_of_def drift_def kick_def
      norm_of_def Let_def)

lemma integrator_calls_coefficients:
  "integrator_calls ext E (locals_of E) k p = coefficient_slices ext E k p"
  by (induction k arbitrary: p) (simp_all add: slice_calls_coefficients)

lemma fringe_calls_hard_edge:
  assumes "fringeIntM0 E = None \<or> fringeIntP0 E = None"
  shows "fringe_entrance_calls E (locals_of E) @ fringe_exit_calls E (locals_of E) =
           (if d_ne (PolynomB E ! 1) (d_int 0) then
              (if FringeQuadEntrance E \<noteq> 0 then [QuadFringePassP (PolynomB E ! 1)] else []) @
              (if FringeQuadExit E \<noteq> 0 then [QuadFringePassN (PolynomB E ! 1)] else [])
            else [])"
  using assms
  by (auto simp: fringe_entrance_calls_def fringe_exit_calls_def locals_of_def Let_def)

section \<open>Fringe mode 2 without the integral vectors\<close>

text \<open>
  C1 (as the specification states it): a call that asks for fringe mode 2 and supplies
  neither integral vector raises a configuration error before any particle is processed.
  It does not.  On the quadrupole \<open>quad\<close> with entrance mode 2 and no integral vector, the
  pass returns, and on the one particle of the batch it has called the hard-edge fringe
  \<open>QuadFringePassP\<close> and then the slice.
\<close>

theorem mode2_without_integrals_counterexample:
  "StrMPoleSymplectic4Pass ext_spec [on_axis]
     (quad\<lparr> FringeQuadEntrance := 2, fringeIntM0 := None, fringeIntP0 := None \<rparr>) 1 =
   Inr \<lparr> buf = [on_axis], trace = map (Pair 0) (QuadFringePassP (d_int 1) # quad_slice) \<rparr>"
  by code_simp

text \<open>
  C1 (amended): when at least one of the two integral vectors is absent, the pass raises no
  error of its own and treats mode 2 as mode 1.  A call with mode 2 at the entrance or at
  the exit gives the result of the same call with mode 1 there; and on every particle
  alive on entry the fringe calls are the hard-edge ones and no other: when
  \<open>PolynomB[1]\<close> is not zero, \<open>QuadFringePassP\<close> if the entrance mode is set and
  \<open>QuadFringePassN\<close> if the exit mode is set.
\<close>

theorem mode2_without_integrals_is_hard_edge:
  assumes "fringeIntM0 E = None \<or> fringeIntP0 E = None"
  shows "StrMPoleSymplectic4Pass ext r E n =
         StrMPoleSymplectic4Pass ext r
           (E\<lparr> FringeQuadEntrance := (if FringeQuadEntrance E = 2 then 1 else FringeQuadEntrance E),
               FringeQuadExit := (if FringeQuadExit E = 2 then 1 else FringeQuadExit E) \<rparr>) n \<and>
         (safe_call r E n \<and> i < nat n \<and> \<not> atIsNaN (r6_0 (r ! i)) \<longrightarrow>
            (\<exists>st. StrMPoleSymplectic4Pass ext r E n = Inr st \<and>
                  filter is_fringe (calls_of i (trace st)) =
                    (if d_ne (PolynomB E ! 1) (d_int 0) then
                       (if FringeQuadEntrance E \<noteq> 0 then [QuadFringePassP (PolynomB E ! 1)]
                        else []) @
                       (if FringeQuadExit E \<noteq> 0 then [QuadFringePassN (PolynomB E ! 1)]
                        else [])
                     else [])))"
proof (intro conjI impI)
  show "StrMPoleSymplectic4Pass ext r E n =
         StrMPoleSymplectic4Pass ext r
           (E\<lparr> FringeQuadEntrance := (if FringeQuadEntrance E = 2 then 1 else FringeQuadEntrance E),
               FringeQuadExit := (if FringeQuadExit E = 2 then 1 else FringeQuadExit E) \<rparr>) n"
    unfolding pass_in_order_eq
    by (rule pass_in_order_cong [symmetric])
      (rule particle_result_without_integrals [OF assms refl])
next
  assume a: "safe_call r E n \<and> i < nat n \<and> \<not> atIsNaN (r6_0 (r ! i))"
  then have "safe_call r E n" "i < nat n" "\<not> atIsNaN (r6_0 (r ! i))" by simp_all
  from pass_live [OF this, of ext] obtain st where
    st: "StrMPoleSymplectic4Pass ext r E n = Inr st"
    and c: "calls_of i (trace st) = particle_calls ext E (locals_of E) (r ! i)" by blast
  have "filter is_fringe (calls_of i (trace st)) =
          fringe_entrance_calls E (locals_of E) @ fringe_exit_calls E (locals_of E)"
    unfolding c by (rule fringe_particle_calls)
  with st show "\<exists>st. StrMPoleSymplectic4Pass ext r E n = Inr st \<and>
      filter is_fringe (calls_of i (trace st)) =
        (if d_ne (PolynomB E ! 1) (d_int 0) then
           (if FringeQuadEntrance E \<noteq> 0 then [QuadFringePassP (PolynomB E ! 1)] else []) @
           (if FringeQuadExit E \<noteq> 0 then [QuadFringePassN (PolynomB E ! 1)] else [])
         else [])"
    unfolding fringe_calls_hard_edge [OF assms] by blast
qed

text \<open>The quadrupole with mode 2 on both sides and no integral vector gives what mode 1
  gives, and the fringe calls on its particle are \<open>QuadFringePassP\<close> and
  \<open>QuadFringePassN\<close>.\<close>

theorem mode2_without_integrals_witness:
  "(fringeIntM0 (quad\<lparr> FringeQuadEntrance := 2, FringeQuadExit := 2 \<rparr>) = None \<or>
    fringeIntP0 (quad\<lparr> FringeQuadEntrance := 2, FringeQuadExit := 2 \<rparr>) = None) \<and>
   safe_call [on_axis] (quad\<lparr> FringeQuadEntrance := 2, FringeQuadExit := 2 \<rparr>) 1 \<and>
   (0::nat) < nat 1 \<and> \<not> atIsNaN (r6_0 ([on_axis] ! 0)) \<and>
   StrMPoleSymplectic4Pass ext_spec [on_axis]
     (quad\<lparr> FringeQuadEntrance := 2, FringeQuadExit := 2 \<rparr>) 1 =
   StrMPoleSymplectic4Pass ext_spec [on_axis]
     (quad\<lparr> FringeQuadEntrance := 1, FringeQuadExit := 1 \<rparr>) 1 \<and>
   (\<exists>st. StrMPoleSymplectic4Pass ext_spec [on_axis]
           (quad\<lparr> FringeQuadEntrance := 2, FringeQuadExit := 2 \<rparr>) 1 = Inr st \<and>
         filter is_fringe (calls_of 0 (trace st)) =
           [QuadFringePassP (d_int 1), QuadFringePassN (d_int 1)])"
proof -
  let ?E = "quad\<lparr> FringeQuadEntrance := 2, FringeQuadExit := 2 \<rparr>"
  have h: "fringeIntM0 ?E = None \<or> fringeIntP0 ?E = None" by (simp add: quad_def)
  have h1: "safe_call [on_axis] ?E 1" by code_simp
  have h2: "(0::nat) < nat 1" by simp
  have h3: "\<not> atIsNaN (r6_0 ([on_axis] ! 0))" by code_simp
  have e: "?E\<lparr> FringeQuadEntrance :=
                 (if FringeQuadEntrance ?E = 2 then 1 else FringeQuadEntrance ?E),
               FringeQuadExit :=
                 (if FringeQuadExit ?E = 2 then 1 else FringeQuadExit ?E) \<rparr>
           = quad\<lparr> FringeQuadEntrance := 1, FringeQuadExit := 1 \<rparr>"
    by (simp add: quad_def)
  have b: "PolynomB ?E ! 1 = d_int 1" by (simp add: quad_def)
  have d: "d_ne (d_int 1) (d_int 0)" by code_simp
  have m: "FringeQuadEntrance ?E \<noteq> 0" "FringeQuadExit ?E \<noteq> 0" by simp_all
  note t = mode2_without_integrals_is_hard_edge [OF h, of ext_spec "[on_axis]" 1 0]
  have 1: "StrMPoleSymplectic4Pass ext_spec [on_axis] ?E 1 =
      StrMPoleSymplectic4Pass ext_spec [on_axis]
        (quad\<lparr> FringeQuadEntrance := 1, FringeQuadExit := 1 \<rparr>) 1"
    using conjunct1 [OF t] unfolding e .
  have f: "(if d_ne (PolynomB ?E ! 1) (d_int 0) then
              (if FringeQuadEntrance ?E \<noteq> 0 then [QuadFringePassP (PolynomB ?E ! 1)] else []) @
              (if FringeQuadExit ?E \<noteq> 0 then [QuadFringePassN (PolynomB ?E ! 1)] else [])
            else []) = [QuadFringePassP (d_int 1), QuadFringePassN (d_int 1)]"
    unfolding b using d m by simp
  have 2: "\<exists>st. StrMPoleSymplectic4Pass ext_spec [on_axis] ?E 1 = Inr st \<and>
      filter is_fringe (calls_of 0 (trace st)) =
        [QuadFringePassP (d_int 1), QuadFringePassN (d_int 1)]"
    using conjunct2 [OF t] h1 h2 h3 unfolding f by blast
  from 1 2 h h1 h2 h3 show ?thesis by blast
qed

section \<open>A particle lost at the entrance\<close>

text \<open>
  C2 (as the specification states it): a particle that the entrance aperture checks mark
  lost has none of its coordinates modified by a later stage of the pass.  It has.  The
  particle at x = 2 is alive on entry and lost after the entrance check against
  \<open>[-1, 1, -1, 1]\<close>; the pass goes on to call the slice, the exit check and the exit
  translation on it, and the translation by 1 in y takes its y from 0 to 1.
\<close>

theorem lost_at_entrance_counterexample:
  "\<not> atIsNaN (r6_0 at_x2) \<and>
   atIsNaN (r6_0 (fold ext_spec
     (entrance_calls (quad\<lparr> RApertures := Some rect_limits, T2 := Some shift_y \<rparr>)) at_x2)) \<and>
   r6_2 at_x2 = d_int 0 \<and>
   StrMPoleSymplectic4Pass ext_spec [at_x2]
     (quad\<lparr> RApertures := Some rect_limits, T2 := Some shift_y \<rparr>) 1 =
   Inr \<lparr> buf = [on_axis\<lparr> r6_0 := NaN, r6_2 := d_int 1 \<rparr>],
         trace = map (Pair 0) (checkiflostRectangularAp rect_limits # quad_slice @
                   [checkiflostRectangularAp rect_limits, ATaddvv shift_y]) \<rparr>"
  by code_simp

text \<open>
  C2 (amended): the pass tests for the sentinel once, on entry.  A particle that is alive
  on entry and that the entrance stages leave lost is not skipped: the entrance fringe,
  every slice, the exit fringe, the exit aperture checks and the exit misalignment are
  called on it as on any other particle, and its coordinates after the pass are what
  these calls leave.
\<close>

theorem lost_at_entrance_not_skipped:
  assumes "safe_call r E n" and "i < nat n" and "\<not> atIsNaN (r6_0 (r ! i))"
    and "atIsNaN (r6_0 (fold ext (entrance_calls E) (r ! i)))"
  shows "\<exists>st. StrMPoleSymplectic4Pass ext r E n = Inr st \<and>
           (let q = fold ext (entrance_calls E) (r ! i);
                rest = fringe_entrance_calls E (locals_of E) @
                       integrator_calls ext E (locals_of E) (nat (NumIntSteps E))
                         (fold ext (fringe_entrance_calls E (locals_of E)) q) @
                       fringe_exit_calls E (locals_of E) @ exit_calls E
            in calls_of i (trace st) = entrance_calls E @ rest \<and> buf st ! i = fold ext rest q)"
proof -
  from pass_live [OF assms(1-3), of ext] obtain st where
    "StrMPoleSymplectic4Pass ext r E n = Inr st"
    "buf st ! i = fold ext (particle_calls ext E (locals_of E) (r ! i)) (r ! i)"
    "calls_of i (trace st) = particle_calls ext E (locals_of E) (r ! i)" by blast
  then show ?thesis
    by (simp add: particle_calls_def after_entrance_calls_def Let_def)
qed

text \<open>The particle at x = 2: lost at the entrance, and at least the seven calls of the
  slice are made on it.\<close>

theorem lost_at_entrance_not_skipped_witness:
  "safe_call [at_x2] (quad\<lparr> RApertures := Some rect_limits, T2 := Some shift_y \<rparr>) 1 \<and>
   (0::nat) < nat 1 \<and> \<not> atIsNaN (r6_0 ([at_x2] ! 0)) \<and>
   atIsNaN (r6_0 (fold ext_spec
     (entrance_calls (quad\<lparr> RApertures := Some rect_limits, T2 := Some shift_y \<rparr>)) ([at_x2] ! 0))) \<and>
   (\<exists>st. StrMPoleSymplectic4Pass ext_spec [at_x2]
           (quad\<lparr> RApertures := Some rect_limits, T2 := Some shift_y \<rparr>) 1 = Inr st \<and>
         7 \<le> length (calls_of 0 (trace st)))"
proof -
  let ?E = "quad\<lparr> RApertures := Some rect_limits, T2 := Some shift_y \<rparr>"
  have h1: "safe_call [at_x2] ?E 1" by code_simp
  have h2: "(0::nat) < nat 1" by simp
  have h3: "\<not> atIsNaN (r6_0 ([at_x2] ! 0))" by code_simp
  have h4: "atIsNaN (r6_0 (fold ext_spec (entrance_calls ?E) ([at_x2] ! 0)))" by code_simp
  from lost_at_entrance_not_skipped [OF h1 h2 h3 h4] obtain st rest where
    st: "StrMPoleSymplectic4Pass ext_spec [at_x2] ?E 1 = Inr st"
    and c: "calls_of 0 (trace st) = entrance_calls ?E @ fringe_entrance_calls ?E (locals_of ?E) @
              integrator_calls ext_spec ?E (locals_of ?E) (nat (NumIntSteps ?E)) rest @
              fringe_exit_calls ?E (locals_of ?E) @ exit_calls ?E"
    unfolding Let_def by blast
  have "length (integrator_calls ext_spec ?E (locals_of ?E) (nat (NumIntSteps ?E)) rest) = 7"
    unfolding length_integrator_calls by (simp add: quad_def)
  then have "7 \<le> length (calls_of 0 (trace st))" unfolding c by simp
  with st h1 h2 h3 h4 show ?thesis by blast
qed

section \<open>The order of the aperture checks\<close>

text \<open>
  C3 (as the specification states it): at the exit the elliptical check comes before the
  rectangular one.  It does not.  On the quadrupole with both apertures the calls made on
  the particle end with the rectangular check and then the elliptical one, as they begin.
\<close>

theorem exit_aperture_order_counterexample:
  "StrMPoleSymplectic4Pass ext_spec [on_axis]
     (quad\<lparr> RApertures := Some rect_limits, EApertures := Some ellip_limits \<rparr>) 1 =
   Inr \<lparr> buf = [on_axis],
         trace = map (Pair 0)
           ([checkiflostRectangularAp rect_limits, checkiflostEllipticalAp ellip_limits] @
            quad_slice @
            [checkiflostRectangularAp rect_limits, checkiflostEllipticalAp ellip_limits]) \<rparr> \<and>
   rect_limits \<noteq> ellip_limits"
  by code_simp

text \<open>
  C3 (amended): in every pass the aperture checks are applied in the order rectangular
  then elliptical at the entrance and in the same order, rectangular then elliptical, at
  the exit, each when its parameter is present.  The calls on a particle alive on entry
  are: the entrance translation and transform, the rectangular and the elliptical check,
  calls that are no aperture checks, the rectangular and the elliptical check, the exit
  transform and translation.
\<close>

theorem aperture_checks_order:
  assumes "safe_call r E n" and "i < nat n" and "\<not> atIsNaN (r6_0 (r ! i))"
  shows "\<exists>st mid. StrMPoleSymplectic4Pass ext r E n = Inr st \<and>
           calls_of i (trace st) =
             opt_call (T1 E) ATaddvv @ opt_call (R1 E) ATmultmv @
             opt_call (RApertures E) checkiflostRectangularAp @
             opt_call (EApertures E) checkiflostEllipticalAp @
             mid @
             opt_call (RApertures E) checkiflostRectangularAp @
             opt_call (EApertures E) checkiflostEllipticalAp @
             opt_call (R2 E) ATmultmv @ opt_call (T2 E) ATaddvv \<and>
           filter is_aperture_check mid = []"
proof -
  let ?mid = "fringe_entrance_calls E (locals_of E) @
              integrator_calls ext E (locals_of E) (nat (NumIntSteps E))
                (fold ext (fringe_entrance_calls E (locals_of E))
                  (fold ext (entrance_calls E) (r ! i))) @
              fringe_exit_calls E (locals_of E)"
  from pass_live [OF assms, of ext] obtain st where
    st: "StrMPoleSymplectic4Pass ext r E n = Inr st"
    and c: "calls_of i (trace st) = particle_calls ext E (locals_of E) (r ! i)" by blast
  have "calls_of i (trace st) =
          opt_call (T1 E) ATaddvv @ opt_call (R1 E) ATmultmv @
          opt_call (RApertures E) checkiflostRectangularAp @
          opt_call (EApertures E) checkiflostEllipticalAp @
          ?mid @
          opt_call (RApertures E) checkiflostRectangularAp @
          opt_call (EApertures E) checkiflostEllipticalAp @
          opt_call (R2 E) ATmultmv @ opt_call (T2 E) ATaddvv"
    unfolding c
    by (simp add: particle_calls_def after_entrance_calls_def entrance_calls_def exit_calls_def)
  moreover have "filter is_aperture_check ?mid = []"
    by (simp add: aperture_integrator_calls aperture_fringe)
  ultimately show ?thesis using st by blast
qed

text \<open>The quadrupole with both apertures: rectangular, elliptical, rectangular,
  elliptical.\<close>

theorem aperture_checks_order_witness:
  "safe_call [on_axis] (quad\<lparr> RApertures := Some rect_limits, EApertures := Some ellip_limits \<rparr>) 1 \<and>
   (0::nat) < nat 1 \<and> \<not> atIsNaN (r6_0 ([on_axis] ! 0)) \<and>
   (\<exists>st. StrMPoleSymplectic4Pass ext_spec [on_axis]
           (quad\<lparr> RApertures := Some rect_limits, EApertures := Some ellip_limits \<rparr>) 1 = Inr st \<and>
         filter is_aperture_check (calls_of 0 (trace st)) =
           [checkiflostRectangularAp rect_limits, checkiflostEllipticalAp ellip_limits,
            checkiflostRectangularAp rect_limits, checkiflostEllipticalAp ellip_limits])"
proof -
  let ?E = "quad\<lparr> RApertures := Some rect_limits, EApertures := Some ellip_limits \<rparr>"
  have h1: "safe_call [on_axis] ?E 1" by code_simp
  have h2: "(0::nat) < nat 1" by simp
  have h3: "\<not> atIsNaN (r6_0 ([on_axis] ! 0))" by code_simp
  from aperture_checks_order [OF h1 h2 h3, of ext_spec] obtain st mid where
    st: "StrMPoleSymplectic4Pass ext_spec [on_axis] ?E 1 = Inr st"
    and c: "calls_of 0 (trace st) =
             opt_call (T1 ?E) ATaddvv @ opt_call (R1 ?E) ATmultmv @
             opt_call (RApertures ?E) checkiflostRectangularAp @
             opt_call (EApertures ?E) checkiflostEllipticalAp @
             mid @
             opt_call (RApertures ?E) checkiflostRectangularAp @
             opt_call (EApertures ?E) checkiflostEllipticalAp @
             opt_call (R2 ?E) ATmultmv @ opt_call (T2 ?E) ATaddvv"
    and m: "filter is_aperture_check mid = []" by auto
  have "filter is_aperture_check (calls_of 0 (trace st)) =
          [checkiflostRectangularAp rect_limits, checkiflostEllipticalAp ellip_limits,
           checkiflostRectangularAp rect_limits, checkiflostEllipticalAp ellip_limits]"
    unfolding c by (simp add: m) (simp add: opt_call_def)
  with st h1 h2 h3 show ?thesis by blast
qed

section \<open>The slices\<close>

text \<open>
  C4: on every particle alive on entry, the drifts and kicks the pass makes are those of
  \<open>NumIntSteps\<close> slices, each slice the seven calls drift(L1 norm), kick(K1),
  drift(L2 norm), kick(K2), drift(L2 norm), kick(K1), drift(L1 norm) with
  norm = 1/(1+delta) taken from the particle as the slice before has left it (for the first
  slice, as the entrance stages have left it); there are \<open>7 * NumIntSteps\<close> of them.
\<close>

theorem slice_sequence:
  assumes "safe_call r E n" and "i < nat n" and "\<not> atIsNaN (r6_0 (r ! i))"
  shows "\<exists>st. StrMPoleSymplectic4Pass ext r E n = Inr st \<and>
           filter is_drift_or_kick (calls_of i (trace st)) =
             integrator_calls ext E (locals_of E) (nat (NumIntSteps E))
               (fold ext (entrance_calls E @ fringe_entrance_calls E (locals_of E)) (r ! i)) \<and>
           length (filter is_drift_or_kick (calls_of i (trace st))) = 7 * nat (NumIntSteps E)"
proof -
  from pass_live [OF assms, of ext] obtain st where
    "StrMPoleSymplectic4Pass ext r E n = Inr st"
    "calls_of i (trace st) = particle_calls ext E (locals_of E) (r ! i)" by blast
  then show ?thesis by (simp add: drift_kick_particle_calls length_integrator_calls)
qed

text \<open>The quadrupole in two slices: fourteen drifts and kicks.\<close>

theorem slice_sequence_witness:
  "safe_call [on_axis] (quad\<lparr> NumIntSteps := 2 \<rparr>) 1 \<and>
   (0::nat) < nat 1 \<and> \<not> atIsNaN (r6_0 ([on_axis] ! 0)) \<and>
   (\<exists>st. StrMPoleSymplectic4Pass ext_spec [on_axis] (quad\<lparr> NumIntSteps := 2 \<rparr>) 1 = Inr st \<and>
         length (filter is_drift_or_kick (calls_of 0 (trace st))) = 14)"
proof -
  let ?E = "quad\<lparr> NumIntSteps := 2 \<rparr>"
  have h1: "safe_call [on_axis] ?E 1" by code_simp
  have h2: "(0::nat) < nat 1" by simp
  have h3: "\<not> atIsNaN (r6_0 ([on_axis] ! 0))" by code_simp
  have n: "7 * nat (NumIntSteps ?E) = 14" by simp
  from slice_sequence [OF h1 h2 h3, of ext_spec] h1 h2 h3 show ?thesis
    unfolding n by blast
qed

section \<open>The step coefficients\<close>

text \<open>
  C5: the coefficients are \<open>SL = Length/NumIntSteps\<close>, \<open>L1 = SL*DRIFT1\<close>, \<open>L2 = SL*DRIFT2\<close>,
  \<open>K1 = SL*KICK1\<close>, \<open>K2 = SL*KICK2\<close> on the four literals of the source, the same for every
  particle and every slice.  On every particle alive on entry the drifts and kicks of the
  pass are those of the slices with these coefficients written out
  (\<open>coefficient_slices\<close>): drifts over \<open>SL*DRIFT1\<close>, \<open>SL*DRIFT2\<close>, \<open>SL*DRIFT2\<close>,
  \<open>SL*DRIFT1\<close> times the norm, kicks of strength \<open>SL*KICK1\<close>, \<open>SL*KICK2\<close>, \<open>SL*KICK1\<close>
  between them.  No call of the pass, on whichever particle, is a drift or a kick with
  another coefficient.
\<close>

theorem step_coefficients:
  assumes "safe_call r E n"
  shows "\<exists>st. StrMPoleSymplectic4Pass ext r E n = Inr st \<and>
           (\<forall>i < nat n. \<not> atIsNaN (r6_0 (r ! i)) \<longrightarrow>
              filter is_drift_or_kick (calls_of i (trace st)) =
                coefficient_slices ext E (nat (NumIntSteps E))
                  (fold ext (entrance_calls E @ fringe_entrance_calls E (locals_of E)) (r ! i))) \<and>
           (\<forall>e \<in> set (trace st). uses_coefficients E (snd e)) \<and>
           SL (locals_of E) = d_div (Length E) (d_int (NumIntSteps E)) \<and>
           L1 (locals_of E) = d_mul (SL (locals_of E)) DRIFT1 \<and>
           L2 (locals_of E) = d_mul (SL (locals_of E)) DRIFT2 \<and>
           K1 (locals_of E) = d_mul (SL (locals_of E)) KICK1 \<and>
           K2 (locals_of E) = d_mul (SL (locals_of E)) KICK2 \<and>
           DRIFT1 = d_lit 6756035959798286638 19 \<and>
           DRIFT2 = d_lit (- 1756035959798286639) 19 \<and>
           KICK1 = d_lit 1351207191959657328 18 \<and>
           KICK2 = d_lit (- 1702414383919314656) 18"
proof -
  from pass_total [OF assms] obtain st where st: "StrMPoleSymplectic4Pass ext r E n = Inr st"
    by blast
  have live: "calls_of i (trace st) = particle_calls ext E (locals_of E) (r ! i)"
    if "i < nat n" "\<not> atIsNaN (r6_0 (r ! i))" for i
  proof -
    have "particle_result ext E (r ! i) =
            Inr (fold ext (particle_calls ext E (locals_of E) (r ! i)) (r ! i),
                 particle_calls ext E (locals_of E) (r ! i))"
      using assms that(2) by (intro particle_result_live) (simp_all add: safe_call_def)
    with pass_Inr(2) [OF st that(1)] show ?thesis by simp
  qed
  have seq: "filter is_drift_or_kick (calls_of i (trace st)) =
               coefficient_slices ext E (nat (NumIntSteps E))
                 (fold ext (entrance_calls E @ fringe_entrance_calls E (locals_of E)) (r ! i))"
    if "i < nat n" "\<not> atIsNaN (r6_0 (r ! i))" for i
    unfolding live [OF that] drift_kick_particle_calls integrator_calls_coefficients ..
  have "uses_coefficients E (snd e)" if e: "e \<in> set (trace st)" for e
  proof -
    obtain i c where ic: "e = (i, c)" by (cases e)
    with e have c: "c \<in> set (calls_of i (trace st))" by (simp add: in_calls_of)
    then have "calls_of i (trace st) \<noteq> []" by auto
    with pass_Inr(3) [OF st, of i] have i: "i < nat n" by blast
    from pass_Inr(2) [OF st i] c
    have "c \<in> set (particle_calls ext E (locals_of E) (r ! i))"
      by (auto simp: particle_result_def split: if_splits)
    then show ?thesis using ic by (simp add: uses_coefficients_particle_calls)
  qed
  then have B: "\<forall>e \<in> set (trace st). uses_coefficients E (snd e)" by blast
  have A: "\<forall>i < nat n. \<not> atIsNaN (r6_0 (r ! i)) \<longrightarrow>
              filter is_drift_or_kick (calls_of i (trace st)) =
                coefficient_slices ext E (nat (NumIntSteps E))
                  (fold ext (entrance_calls E @ fringe_entrance_calls E (locals_of E)) (r ! i))"
    using seq by blast
  show ?thesis
  proof (intro exI [of _ st] conjI)
    show "StrMPoleSymplectic4Pass ext r E n = Inr st" by (rule st)
    show "\<forall>i < nat n. \<not> atIsNaN (r6_0 (r ! i)) \<longrightarrow>
              filter is_drift_or_kick (calls_of i (trace st)) =
                coefficient_slices ext E (nat (NumIntSteps E))
                  (fold ext (entrance_calls E @ fringe_entrance_calls E (locals_of E)) (r ! i))"
      by (rule A)
    show "\<forall>e \<in> set (trace st). uses_coefficients E (snd e)" by (rule B)
  qed (simp_all add: locals_of_def Let_def DRIFT1_def DRIFT2_def KICK1_def KICK2_def)
qed

text \<open>Two particles through the quadrupole: on each the drifts and kicks are over
  \<open>DRIFT1\<close>, \<open>KICK1\<close>, \<open>DRIFT2\<close>, \<open>KICK2\<close>, \<open>DRIFT2\<close>, \<open>KICK1\<close>, \<open>DRIFT1\<close>.\<close>

theorem step_coefficients_witness:
  "safe_call [on_axis, at_x2] quad 2 \<and>
   \<not> atIsNaN (r6_0 ([on_axis, at_x2] ! 0)) \<and> \<not> atIsNaN (r6_0 ([on_axis, at_x2] ! 1)) \<and>
   (\<exists>st. StrMPoleSymplectic4Pass ext_spec [on_axis, at_x2] quad 2 = Inr st \<and>
         filter is_drift_or_kick (calls_of 0 (trace st)) = quad_slice \<and>
         filter is_drift_or_kick (calls_of 1 (trace st)) = quad_slice)"
proof -
  let ?r = "[on_axis, at_x2]"
  have h: "safe_call ?r quad 2" by code_simp
  have n0: "\<not> atIsNaN (r6_0 (?r ! 0))" by code_simp
  have n1: "\<not> atIsNaN (r6_0 (?r ! 1))" by code_simp
  have c0: "coefficient_slices ext_spec quad (nat (NumIntSteps quad))
              (fold ext_spec (entrance_calls quad @ fringe_entrance_calls quad (locals_of quad))
                (?r ! 0)) = quad_slice" by code_simp
  have c1: "coefficient_slices ext_spec quad (nat (NumIntSteps quad))
              (fold ext_spec (entrance_calls quad @ fringe_entrance_calls quad (locals_of quad))
                (?r ! 1)) = quad_slice" by code_simp
  from step_coefficients [OF h, of ext_spec] obtain st where
    st: "StrMPoleSymplectic4Pass ext_spec ?r quad 2 = Inr st"
    and a: "\<forall>i < nat 2. \<not> atIsNaN (r6_0 (?r ! i)) \<longrightarrow>
              filter is_drift_or_kick (calls_of i (trace st)) =
                coefficient_slices ext_spec quad (nat (NumIntSteps quad))
                  (fold ext_spec (entrance_calls quad @ fringe_entrance_calls quad (locals_of quad))
                    (?r ! i))" by blast
  have l: "(0::nat) < nat 2" "(1::nat) < nat 2" by simp_all
  from a l(1) n0 have "filter is_drift_or_kick (calls_of 0 (trace st)) = quad_slice"
    unfolding c0 [symmetric] by blast
  moreover from a l(2) n1 have "filter is_drift_or_kick (calls_of 1 (trace st)) = quad_slice"
    unfolding c1 [symmetric] by blast
  ultimately show ?thesis using st h n0 n1 by blast
qed

section \<open>A particle that enters lost\<close>

text \<open>
  C6: a particle that carries the not-a-number sentinel on entry is returned as it came,
  and no primitive is called on it.  This holds of every call of the pass that returns,
  whatever the element; and every call whose reads stay inside the arrays returns.
\<close>

theorem lost_particle_untouched:
  assumes "i < nat n" and "atIsNaN (r6_0 (r ! i))"
  shows "(safe_call r E n \<longrightarrow> (\<exists>st. StrMPoleSymplectic4Pass ext r E n = Inr st)) \<and>
         (\<forall>st. StrMPoleSymplectic4Pass ext r E n = Inr st \<longrightarrow>
               buf st ! i = r ! i \<and> calls_of i (trace st) = [])"
proof (intro conjI impI allI)
  show "\<exists>st. StrMPoleSymplectic4Pass ext r E n = Inr st" if "safe_call r E n"
    using pass_total [OF that] .
  fix st assume st: "StrMPoleSymplectic4Pass ext r E n = Inr st"
  from pass_Inr(2) [OF st assms(1)] assms(2)
  show "buf st ! i = r ! i" and "calls_of i (trace st) = []"
    by (auto simp: particle_result_def)
qed

text \<open>A lost particle and a live one through the quadrupole with a fringe.\<close>

theorem lost_particle_untouched_witness:
  "(0::nat) < nat 2 \<and> atIsNaN (r6_0 ([lost, on_axis] ! 0)) \<and>
   safe_call [lost, on_axis] (quad\<lparr> FringeQuadEntrance := 1 \<rparr>) 2 \<and>
   (\<exists>st. StrMPoleSymplectic4Pass ext_spec [lost, on_axis] (quad\<lparr> FringeQuadEntrance := 1 \<rparr>) 2 = Inr st \<and>
         buf st ! 0 = [lost, on_axis] ! 0 \<and> calls_of 0 (trace st) = [])"
proof -
  have h1: "(0::nat) < nat 2" by simp
  have h2: "atIsNaN (r6_0 ([lost, on_axis] ! 0))" by code_simp
  have h3: "safe_call [lost, on_axis] (quad\<lparr> FringeQuadEntrance := 1 \<rparr>) 2" by code_simp
  from lost_particle_untouched [OF h1 h2, of "quad\<lparr> FringeQuadEntrance := 1 \<rparr>" ext_spec]
    h1 h2 h3 show ?thesis by blast
qed

section \<open>The coefficients in double arithmetic\<close>

text \<open>
  C7 (as the specification states it): in double arithmetic on the literals of the source
  \<open>2*KICK1 + 2*KICK2\<close> is exactly 1.  It is not: it is \<open>-0.7024143839193147\<close>.
\<close>

theorem kick_identity_counterexample:
  "d_add (d_mul (d_int 2) KICK1) (d_mul (d_int 2) KICK2) = Fin True 6326786315357404 (- 53) \<and>
   d_int 1 = Fin False 4503599627370496 (- 52) \<and>
   d_add (d_mul (d_int 2) KICK1) (d_mul (d_int 2) KICK2) \<noteq> d_int 1"
  by code_simp

text \<open>
  C7 (amended): a slice has four drifts, two of each length, and three kicks, two of
  strength \<open>K1\<close> and one of strength \<open>K2\<close>.  In double arithmetic on the literals of the
  source \<open>2*DRIFT1 + 2*DRIFT2\<close> is exactly 1 and \<open>2*KICK1 + KICK2\<close> is exactly 1.
\<close>

theorem coefficient_identity:
  "d_add (d_mul (d_int 2) DRIFT1) (d_mul (d_int 2) DRIFT2) = d_int 1 \<and>
   d_add (d_mul (d_int 2) KICK1) KICK2 = d_int 1"
  by code_simp

section \<open>The particles of a batch do not depend on each other\<close>

text \<open>
  C8: what a call of the pass leaves of a particle, and the calls it makes on it, are a
  function of that particle as it came and of the element (\<open>particle_result\<close>); and the
  loop body run over the indices of the batch in any order leaves the buffer that the
  pass leaves, with the same calls on each particle.  The element is an argument of the
  model that no step changes.
\<close>

theorem batch_independence:
  assumes "safe_call r E n" and "distinct ord" and "set ord = {0..<nat n}"
  shows "\<exists>st st'. StrMPoleSymplectic4Pass ext r E n = Inr st \<and>
           pass_in_order ext E ord \<lparr> buf = r, trace = [] \<rparr> = Inr st' \<and>
           buf st' = buf st \<and>
           (\<forall>i. calls_of i (trace st') = calls_of i (trace st)) \<and>
           (\<forall>i < nat n. particle_result ext E (r ! i) = Inr (buf st ! i, calls_of i (trace st)))"
proof -
  let ?st0 = "\<lparr> buf = r, trace = [] \<rparr>"
  from pass_total [OF assms(1)] obtain st where st: "StrMPoleSymplectic4Pass ext r E n = Inr st"
    by blast
  have ok: "i < length r \<and> (\<exists>res. particle_result ext E (r ! i) = Inr res)" if "i < nat n" for i
    using pass_Inr(2) [OF st that] by blast
  have "\<exists>st'. pass_in_order ext E ord ?st0 = Inr st'"
    using assms(3) ok by (intro pass_in_order_total [OF assms(2)]) simp
  then obtain st' where st': "pass_in_order ext E ord ?st0 = Inr st'" by blast
  note o = pass_in_order_Inr [OF st' assms(2)]
  have same: "buf st' ! i = buf st ! i \<and> calls_of i (trace st') = calls_of i (trace st)" for i
  proof (cases "i < nat n")
    case True
    then have "i \<in> set ord" using assms(3) by simp
    from o(2) [OF this] pass_Inr(2) [OF st True] show ?thesis by (auto simp: calls_of_Nil)
  next
    case False
    then have "i \<notin> set ord" using assms(3) by simp
    from o(3) [OF this] pass_Inr(3) [OF st False] show ?thesis by (simp add: calls_of_Nil)
  qed
  have "length (buf st') = length (buf st)"
    using o(1) pass_Inr(1) [OF st] by simp
  then have "buf st' = buf st" using same by (intro nth_equalityI) simp_all
  with st st' same pass_Inr(2) [OF st] show ?thesis by blast
qed

text \<open>Three particles, one of them lost on entry and one lost at the entrance, in the
  order 2, 0, 1.\<close>

theorem batch_independence_witness:
  "safe_call [on_axis, at_x2, lost] (quad\<lparr> RApertures := Some rect_limits \<rparr>) 3 \<and>
   distinct [2, 0, 1 :: nat] \<and> set [2, 0, 1 :: nat] = {0..<nat 3} \<and>
   (\<exists>st st'. StrMPoleSymplectic4Pass ext_spec [on_axis, at_x2, lost]
                (quad\<lparr> RApertures := Some rect_limits \<rparr>) 3 = Inr st \<and>
             pass_in_order ext_spec (quad\<lparr> RApertures := Some rect_limits \<rparr>) [2, 0, 1]
                \<lparr> buf = [on_axis, at_x2, lost], trace = [] \<rparr> = Inr st' \<and>
             buf st' = buf st)"
proof -
  let ?E = "quad\<lparr> RApertures := Some rect_limits \<rparr>"
  have h1: "safe_call [on_axis, at_x2, lost] ?E 3" by code_simp
  have h2: "distinct [2, 0, 1 :: nat]" by simp
  have h3: "set [2, 0, 1 :: nat] = {0..<nat 3}" by auto
  from batch_independence [OF h1 h2 h3, of ext_spec] h1 h2 h3 show ?thesis by blast
qed

section \<open>The sentinel test reads x alone\<close>

text \<open>
  C9: the test of line 53 is on \<open>r6[0]\<close> alone.  A particle whose x is no not-a-number goes
  through the whole pipeline, whatever its other five coordinates are on entry: the calls
  made on it are those of \<open>particle_calls\<close>, and it is left as they leave it.
\<close>

theorem sentinel_test_reads_x_only:
  assumes "safe_call r E n" and "i < nat n" and "\<not> atIsNaN (r6_0 (r ! i))"
  shows "\<exists>st. StrMPoleSymplectic4Pass ext r E n = Inr st \<and>
           calls_of i (trace st) = particle_calls ext E (locals_of E) (r ! i) \<and>
           buf st ! i = fold ext (particle_calls ext E (locals_of E) (r ! i)) (r ! i)"
  using pass_live [OF assms, of ext] by blast

text \<open>A particle with x = 0 and not-a-number in the other five coordinates: the seven
  calls of the slice are made on it.\<close>

theorem sentinel_test_reads_x_only_witness:
  "safe_call [nan_but_x] quad 1 \<and> (0::nat) < nat 1 \<and> \<not> atIsNaN (r6_0 ([nan_but_x] ! 0)) \<and>
   atIsNaN (r6_1 nan_but_x) \<and> atIsNaN (r6_2 nan_but_x) \<and> atIsNaN (r6_3 nan_but_x) \<and>
   atIsNaN (r6_4 nan_but_x) \<and> atIsNaN (r6_5 nan_but_x) \<and>
   (\<exists>st. StrMPoleSymplectic4Pass ext_spec [nan_but_x] quad 1 = Inr st \<and>
         calls_of 0 (trace st) = particle_calls ext_spec quad (locals_of quad) ([nan_but_x] ! 0) \<and>
         buf st ! 0 =
           fold ext_spec (particle_calls ext_spec quad (locals_of quad) ([nan_but_x] ! 0))
             ([nan_but_x] ! 0)) \<and>
   length (particle_calls ext_spec quad (locals_of quad) ([nan_but_x] ! 0)) = 7"
proof -
  have h1: "safe_call [nan_but_x] quad 1" by code_simp
  have h2: "(0::nat) < nat 1" by simp
  have h3: "\<not> atIsNaN (r6_0 ([nan_but_x] ! 0))" by code_simp
  have n: "atIsNaN (r6_1 nan_but_x) \<and> atIsNaN (r6_2 nan_but_x) \<and> atIsNaN (r6_3 nan_but_x) \<and>
           atIsNaN (r6_4 nan_but_x) \<and> atIsNaN (r6_5 nan_but_x)" by code_simp
  have l: "length (particle_calls ext_spec quad (locals_of quad) ([nan_but_x] ! 0)) = 7"
    by code_simp
  from sentinel_test_reads_x_only [OF h1 h2 h3, of ext_spec] h1 h2 h3 n l show ?thesis by blast
qed

section \<open>The fringe reads PolynomB[1]\<close>

text \<open>
  C10: when a fringe mode is set and a particle of the batch is alive on entry, the pass
  reads \<open>PolynomB[1]\<close>, whatever \<open>MaxOrder\<close> and \<open>PolynomA\<close> are: with fewer than two entries in
  \<open>PolynomB\<close> the read is out of bounds, and with two or more the pass returns, and the
  fringe calls on the particle are fixed by the modes, \<open>PolynomB[1]\<close> and the integral
  vectors: none on either side if \<open>PolynomB[1]\<close> is zero, else one on each side whose mode
  is set.
\<close>

theorem fringe_reads_PolynomB_1:
  assumes "nat n \<le> length r" and "i < nat n" and "\<not> atIsNaN (r6_0 (r ! i))"
    and "FringeQuadEntrance E \<noteq> 0 \<or> FringeQuadExit E \<noteq> 0"
  shows "case StrMPoleSymplectic4Pass ext r E n of
           Inl f \<Rightarrow> f = PolynomB_out_of_bounds \<and> length (PolynomB E) \<le> 1
         | Inr st \<Rightarrow>
             2 \<le> length (PolynomB E) \<and>
             filter is_fringe (calls_of i (trace st)) =
               (if d_ne (PolynomB E ! 1) (d_int 0) then
                  (if FringeQuadEntrance E \<noteq> 0 then
                     [if useLinFrEleEntrance (locals_of E)
                      then linearQuadFringeElegantEntrance (PolynomB E ! 1)
                             (fringeIntM0 E) (fringeIntP0 E)
                      else QuadFringePassP (PolynomB E ! 1)]
                   else []) @
                  (if FringeQuadExit E \<noteq> 0 then
                     [if useLinFrEleExit (locals_of E)
                      then linearQuadFringeElegantExit (PolynomB E ! 1)
                             (fringeIntM0 E) (fringeIntP0 E)
                      else QuadFringePassN (PolynomB E ! 1)]
                   else [])
                else [])"
proof (cases "length (PolynomB E) \<le> 1")
  case True
  have "particle_result ext E (r ! i) = Inl PolynomB_out_of_bounds"
    using assms(3,4) True by (simp add: particle_result_def)
  then have "pass_in_order ext E [0..<nat n] \<lparr> buf = r, trace = [] \<rparr> = Inl PolynomB_out_of_bounds"
    using assms(1,2) by (intro pass_in_order_fault [where i = i]) simp_all
  then show ?thesis using True by (simp add: pass_in_order_eq)
next
  case False
  then have "safe_call r E n" using assms(1) by (simp add: safe_call_def)
  from pass_live [OF this assms(2,3), of ext] obtain st where
    "StrMPoleSymplectic4Pass ext r E n = Inr st"
    "calls_of i (trace st) = particle_calls ext E (locals_of E) (r ! i)" by blast
  then show ?thesis
    using False
    by (simp add: fringe_particle_calls fringe_entrance_calls_def fringe_exit_calls_def)
qed

text \<open>
  An exit fringe with \<open>MaxOrder = 0\<close> and a \<open>PolynomB\<close> of one entry: the read is out of
  bounds.  Both fringes with \<open>PolynomB[1] = 0\<close>: no fringe call.
\<close>

theorem fringe_reads_PolynomB_1_witness:
  "nat 1 \<le> length [on_axis] \<and> (0::nat) < nat 1 \<and> \<not> atIsNaN (r6_0 ([on_axis] ! 0)) \<and>
   FringeQuadExit (quad\<lparr> FringeQuadExit := 1, PolynomB := [d_int 1], MaxOrder := 0 \<rparr>) = 1 \<and>
   length (PolynomB (quad\<lparr> FringeQuadExit := 1, PolynomB := [d_int 1], MaxOrder := 0 \<rparr>)) = 1 \<and>
   StrMPoleSymplectic4Pass ext_spec [on_axis]
     (quad\<lparr> FringeQuadExit := 1, PolynomB := [d_int 1], MaxOrder := 0 \<rparr>) 1 =
   Inl PolynomB_out_of_bounds \<and>
   FringeQuadEntrance
     (quad\<lparr> FringeQuadEntrance := 1, FringeQuadExit := 2, PolynomB := [d_int 1, d_int 0] \<rparr>) = 1 \<and>
   (\<exists>st. StrMPoleSymplectic4Pass ext_spec [on_axis]
           (quad\<lparr> FringeQuadEntrance := 1, FringeQuadExit := 2, PolynomB := [d_int 1, d_int 0] \<rparr>) 1 =
         Inr st \<and> filter is_fringe (calls_of 0 (trace st)) = [])"
proof -
  let ?E = "quad\<lparr> FringeQuadExit := 1, PolynomB := [d_int 1], MaxOrder := 0 \<rparr>"
  let ?F = "quad\<lparr> FringeQuadEntrance := 1, FringeQuadExit := 2, PolynomB := [d_int 1, d_int 0] \<rparr>"
  have h1: "nat 1 \<le> length [on_axis]" by simp
  have h2: "(0::nat) < nat 1" by simp
  have h3: "\<not> atIsNaN (r6_0 ([on_axis] ! 0))" by code_simp
  have h4: "FringeQuadEntrance ?E \<noteq> 0 \<or> FringeQuadExit ?E \<noteq> 0" by simp
  have h5: "FringeQuadEntrance ?F \<noteq> 0 \<or> FringeQuadExit ?F \<noteq> 0" by simp
  have "length (PolynomB ?E) = 1" by simp
  with fringe_reads_PolynomB_1 [OF h1 h2 h3 h4, of ext_spec]
  have a: "StrMPoleSymplectic4Pass ext_spec [on_axis] ?E 1 = Inl PolynomB_out_of_bounds"
    by (auto split: sum.splits)
  have l: "length (PolynomB ?F) = 2" by simp
  have z: "\<not> d_ne (PolynomB ?F ! 1) (d_int 0)" by code_simp
  from fringe_reads_PolynomB_1 [OF h1 h2 h3 h5, of ext_spec] l z
  have b: "\<exists>st. StrMPoleSymplectic4Pass ext_spec [on_axis] ?F 1 = Inr st \<and>
                filter is_fringe (calls_of 0 (trace st)) = []"
    by (cases "StrMPoleSymplectic4Pass ext_spec [on_axis] ?F 1") simp_all
  have c: "FringeQuadExit ?E = 1" "length (PolynomB ?E) = 1" "FringeQuadEntrance ?F = 1"
    by simp_all
  from a b c h1 h2 h3 show ?thesis by blast
qed

end
